theory Spec2Isabelle
  imports Main
begin

section \<open>The snippet session manager of coc.nvim (src/snippet/manager.ts)\<close>

text \<open>
  The class \<open>SnippetManager\<close> keeps one snippet session: the template model of the
  snippet, the document and line it is bound to, the focused tab-stop and the change
  counter of its own last write. Its methods are embedded below, one definition per
  method, with the same names and the same order of statements.

  The manager's collaborators are not part of the file: the template model
  (\<open>./snippet\<close>, \<open>./parser\<close>), the diff utility (\<open>../util/diff\<close>), the workspace with
  its documents, and the host editor. The template model and the diff utility are taken
  as a parameter (the record \<open>env\<close>), so every theorem below holds for every
  implementation of them. The workspace and the host editor are a parameter too (the
  record \<open>world\<close>): what the documents hold, where the cursor is and which host calls
  are rejected.

  The methods are async functions on one cooperative task queue. A method is modelled as
  run to its end against one world: the documents and the cursor do not change while it
  runs, and no other handler runs between its statements. The world may change between
  two calls.
\<close>

subsection \<open>Data\<close>

text \<open>
  A rejected promise or a thrown exception is a value: \<open>TypeError\<close> for a property read
  on \<open>null\<close>, \<open>HostError\<close> for a rejected call to the host editor or to the buffer,
  \<open>ParseError\<close> for a template that the snippet constructor refuses.
\<close>

datatype error = TypeError | HostError | ParseError

text \<open>
  The calls that a method issues, in the order it issues them. A call is recorded when
  it is made, whether the host then fulfils or rejects it. \<open>Buf_setLines u t n\<close> is
  \<open>buffer.setLines(t, {start: n, strictIndexing: true})\<close> on the buffer of the document
  with URI \<open>u\<close>; the two logger calls (\<open>onError\<close> and \<open>logger.error\<close>) are \<open>Log_error\<close>.
  The line of a jump call is \<open>startLnum + 1\<close> and the start of a write by \<open>onLineChange\<close> is
  \<open>startLnum\<close>, a field that is \<open>undefined\<close> until \<open>attach\<close> has run: these arguments are
  \<open>None\<close> when the field is.
\<close>

datatype effect =
    Call_enable
  | Call_disable
  | Call_show_choices "int option" int int "string list"
  | Call_range_select "int option" int int
  | Buf_setLines string string "int option"
  | Log_error error

text \<open>The change item of the diff utility; the manager reads its offset only.\<close>

record change =
  ch_offset :: int
  ch_removed :: nat
  ch_inserted :: string

text \<open>
  The interface of a \<open>Document\<close> as the manager reads it. The fields are the values
  cached by the document object; a write through its buffer reaches them only with a
  later change notification, so no method below changes them. \<open>getline\<close> is asked for the
  line \<open>startLnum\<close>, so its argument is \<open>None\<close> when that field is \<open>undefined\<close>.
\<close>

record Document =
  doc_uri :: string
  doc_lineCount :: int
  doc_changedtick :: int
  doc_getline :: "int option \<Rightarrow> string"

record DidChangeTextDocumentParams =
  textDocument_uri :: string

text \<open>
  The workspace and the host editor: \<open>getDocument\<close> is \<open>workspace.getDocument\<close>, asked
  with the field \<open>uri\<close> (\<open>None\<close> when that field is \<open>undefined\<close>),
  \<open>line_dot\<close> is the answer to \<open>nvim.call('line', ['.'])\<close> (\<open>None\<close> when the call is
  rejected), \<open>rejects\<close> tells which of the other calls the host rejects.
\<close>

record world =
  getDocument :: "string option \<Rightarrow> Document option"
  line_dot :: "int option"
  rejects :: "effect \<Rightarrow> bool"

text \<open>
  The template model and the diff utility. \<open>'sn\<close> is the state of a \<open>Snippet\<close> object,
  \<open>'ph\<close> a reference to one of its \<open>Placeholder\<close> nodes. The snippet is mutated in
  place by \<open>replaceWith\<close>, so what a placeholder renders to and which choice it carries
  are read through the snippet's current state; its index is fixed when the node is made.
  \<open>parse\<close> is \<open>new Snippet(newLine)\<close>, \<open>None\<close> when the constructor throws.
\<close>

record ('sn, 'ph) env =
  parse :: "string \<Rightarrow> 'sn option"
  toString :: "'sn \<Rightarrow> string"
  getChangeItem :: "string \<Rightarrow> string \<Rightarrow> change option"
  findPlaceholder :: "'sn \<Rightarrow> change \<Rightarrow> int \<Rightarrow> 'ph option \<times> int"
  getNewText :: "'sn \<Rightarrow> change \<Rightarrow> 'ph \<Rightarrow> int \<Rightarrow> string"
  replaceWith :: "'sn \<Rightarrow> 'ph \<Rightarrow> string \<Rightarrow> 'sn"
  hasPlaceholder :: "'sn \<Rightarrow> bool"
  firstPlaceholder :: "'sn \<Rightarrow> 'ph option"
  maxIndex :: "'sn \<Rightarrow> int"
  placeholders :: "'sn \<Rightarrow> 'ph list"
  offset :: "'sn \<Rightarrow> 'ph \<Rightarrow> int"
  index :: "'ph \<Rightarrow> int"
  ph_toString :: "'sn \<Rightarrow> 'ph \<Rightarrow> string"
  choice :: "'sn \<Rightarrow> 'ph \<Rightarrow> string list option"

text \<open>
  The fields of the manager, and \<open>trace\<close>, the calls issued so far. \<open>snippet\<close> is \<open>None\<close>
  for \<open>null\<close> and for the field not yet assigned. \<open>startLnum\<close>, \<open>lineCount\<close>, \<open>changedtick\<close> and
  \<open>uri\<close> are declared without an initial value: they are \<open>undefined\<close>, here \<open>None\<close>, until
  \<open>attach\<close>, \<open>insertSnippet\<close>, \<open>onLineChange\<close> or \<open>detach\<close> assign them. A comparison with
  \<open>undefined\<close> follows JavaScript: \<open>n != undefined\<close> holds for every number \<open>n\<close>, and
  \<open>n - undefined == 1\<close> for none.
\<close>

record 'sn state =
  snippet :: "'sn option"
  activted :: bool
  startLnum :: "int option"
  lineCount :: "int option"
  uri :: "string option"
  currIndex :: int
  changedtick :: "int option"
  trace :: "effect list"

type_synonym ('sn, 'a) result = "(error + 'a) \<times> 'sn state"

subsection \<open>The methods\<close>

definition isActivted :: "'sn state \<Rightarrow> bool" where
  "isActivted s = activted s"

text \<open>A call to the host editor or to a buffer: recorded, then fulfilled or rejected.\<close>

definition call :: "world \<Rightarrow> effect \<Rightarrow> 'sn state \<Rightarrow> ('sn, unit) result" where
  "call w c s =
     (if rejects w c then Inl HostError else Inr (), s\<lparr>trace := trace s @ [c]\<rparr>)"

definition onError :: "error \<Rightarrow> 'sn state \<Rightarrow> 'sn state" where
  "onError err s = s\<lparr>trace := trace s @ [Log_error err]\<rparr>"

text \<open>\<open>promise.catch(onError)\<close>: a rejection is logged and goes no further.\<close>

definition catch_onError :: "('sn, unit) result \<Rightarrow> ('sn, unit) result" where
  "catch_onError p =
     (case fst p of Inl err \<Rightarrow> (Inr (), onError err (snd p)) | Inr u \<Rightarrow> (Inr (), snd p))"

definition document :: "world \<Rightarrow> 'sn state \<Rightarrow> Document option" where
  "document w s = getDocument w (uri s)"

definition detach :: "('sn, 'ph) env \<Rightarrow> world \<Rightarrow> 'sn state \<Rightarrow> ('sn, unit) result" where
  "detach E w s =
     (if \<not> activted s then (Inr (), s)
      else
        let s1 = s\<lparr>activted := False, uri := Some ''''\<rparr> in
        case snippet s1 of
          None \<Rightarrow> (Inl TypeError, s1)
        | Some sn \<Rightarrow>
            if \<not> hasPlaceholder E sn then (Inr (), s1)
            else catch_onError (call w Call_disable (s1\<lparr>snippet := None\<rparr>)))"

definition onLineChange ::
  "('sn, 'ph) env \<Rightarrow> world \<Rightarrow> string \<Rightarrow> 'sn state \<Rightarrow> ('sn, unit) result" where
  "onLineChange E w content s =
     (case document w s of
        None \<Rightarrow> (Inr (), s)
      | Some doc \<Rightarrow>
          (case snippet s of
             None \<Rightarrow> (Inl TypeError, s)
           | Some sn \<Rightarrow>
               let text0 = toString E sn in
               (case getChangeItem E text0 content of
                  None \<Rightarrow> (Inr (), s)
                | Some chg \<Rightarrow>
                    (case findPlaceholder E sn chg (ch_offset chg) of
                       (None, start) \<Rightarrow> detach E w s
                     | (Some placeholder, start) \<Rightarrow>
                         if index E placeholder = 0 then detach E w s
                         else
                           let newText = getNewText E sn chg placeholder start;
                               sn' = replaceWith E sn placeholder newText;
                               line = toString E sn';
                               s1 = s\<lparr>snippet := Some sn',
                                      changedtick := Some (doc_changedtick doc)\<rparr>
                           in if line = content then (Inr (), s1)
                              else call w (Buf_setLines (doc_uri doc) line (startLnum s1)) s1))))"

definition insertSnippet ::
  "('sn, 'ph) env \<Rightarrow> world \<Rightarrow> Document \<Rightarrow> int \<Rightarrow> string \<Rightarrow> 'sn state \<Rightarrow> ('sn, unit) result" where
  "insertSnippet E w doc line newLine s =
     (let p = (if activted s then detach E w s else (Inr (), s)) in
      case fst p of
        Inl err \<Rightarrow> (Inl err, snd p)
      | Inr u \<Rightarrow>
          let s0 = snd p;
              s1 = s0\<lparr>uri := Some (doc_uri doc)\<rparr> in
          (case parse E newLine of
             None \<Rightarrow> (Inr (), onError ParseError s1)
           | Some sn \<Rightarrow>
               let s2 = s1\<lparr>snippet := Some sn\<rparr>;
                   str = toString E sn;
                   s3 = s2\<lparr>changedtick := Some (doc_changedtick doc)\<rparr>
               in catch_onError (call w (Buf_setLines (doc_uri doc) str (Some line)) s3)))"

definition ensureCurrentLine :: "('sn, 'ph) env \<Rightarrow> world \<Rightarrow> 'sn state \<Rightarrow> ('sn, unit) result" where
  "ensureCurrentLine E w s =
     (case document w s of
        None \<Rightarrow> (Inr (), s)
      | Some doc \<Rightarrow>
          (case snippet s of
             None \<Rightarrow> (Inl TypeError, s)
           | Some sn \<Rightarrow>
               let line = toString E sn;
                   currline = doc_getline doc (startLnum s)
               in if line = currline then (Inr (), s) else onLineChange E w currline s))"

definition jumpTo :: "('sn, 'ph) env \<Rightarrow> world \<Rightarrow> 'ph \<Rightarrow> 'sn state \<Rightarrow> ('sn, unit) result" where
  "jumpTo E w marker s =
     (let p = ensureCurrentLine E w s in
      case fst p of
        Inl err \<Rightarrow> (Inl err, snd p)
      | Inr u \<Rightarrow>
          let s1 = snd p in
          (case snippet s1 of
             None \<Rightarrow> (Inl TypeError, s1)
           | Some sn \<Rightarrow>
               let off = offset E sn marker;
                   col = off + 1;
                   len = int (length (ph_toString E sn marker));
                   lnum = map_option (\<lambda>n. n + 1) (startLnum s1);
                   c = (case choice E sn marker of
                          Some values \<Rightarrow> Call_show_choices lnum col len values
                        | None \<Rightarrow> Call_range_select lnum col len);
                   q = call w c s1
               in (case fst q of
                     Inl err \<Rightarrow> (Inl err, snd q)
                   | Inr u \<Rightarrow> (let s2 = snd q in (Inr (), s2\<lparr>currIndex := index E marker\<rparr>)))))"

definition checkPosition :: "('sn, 'ph) env \<Rightarrow> world \<Rightarrow> 'sn state \<Rightarrow> ('sn, bool) result" where
  "checkPosition E w s =
     (case line_dot w of
        None \<Rightarrow> (Inl HostError, s)
      | Some lnum \<Rightarrow>
          if Some (lnum - 1) \<noteq> startLnum s then
            (let p = detach E w s in
             case fst p of Inl err \<Rightarrow> (Inl err, snd p) | Inr u \<Rightarrow> (Inr False, snd p))
          else (Inr True, s))"

definition jumpNext :: "('sn, 'ph) env \<Rightarrow> world \<Rightarrow> 'sn state \<Rightarrow> ('sn, unit) result" where
  "jumpNext E w s =
     (case snippet s of
        None \<Rightarrow> (Inl TypeError, s)
      | Some sn \<Rightarrow>
          let currIndex0 = currIndex s;
              maxIndex0 = maxIndex E sn;
              chk = checkPosition E w s
          in (case fst chk of
               Inl err \<Rightarrow> (Inl err, snd chk)
             | Inr valid \<Rightarrow>
                 if \<not> valid then (Inr (), snd chk)
                 else
                   let s1 = snd chk;
                       idx = (if currIndex0 = maxIndex0 then 0 else currIndex0 + 1);
                       placeholder = find (\<lambda>p. index E p = idx) (placeholders E sn);
                       s2 = s1\<lparr>currIndex := idx\<rparr>
                   in (case placeholder of
                         None \<Rightarrow> (Inr (), s2)
                       | Some marker \<Rightarrow> jumpTo E w marker s2)))"

definition jumpPrev :: "('sn, 'ph) env \<Rightarrow> world \<Rightarrow> 'sn state \<Rightarrow> ('sn, unit) result" where
  "jumpPrev E w s =
     (case snippet s of
        None \<Rightarrow> (Inl TypeError, s)
      | Some sn \<Rightarrow>
          let currIndex0 = currIndex s;
              maxIndex0 = maxIndex E sn;
              chk = checkPosition E w s
          in (case fst chk of
               Inl err \<Rightarrow> (Inl err, snd chk)
             | Inr valid \<Rightarrow>
                 if \<not> valid then (Inr (), snd chk)
                 else
                   let s1 = snd chk;
                       idx = (if currIndex0 = 0 then maxIndex0 else currIndex0 - 1);
                       placeholder = find (\<lambda>p. index E p = idx) (placeholders E sn);
                       s2 = s1\<lparr>currIndex := idx\<rparr>
                   in (case placeholder of
                         None \<Rightarrow> (Inr (), s2)
                       | Some marker \<Rightarrow> jumpTo E w marker s2)))"

text \<open>
  \<open>attach\<close> reads \<open>snippet.hasPlaceholder\<close> through the local alias taken on entry. When
  \<open>jumpTo\<close> has returned normally the field still holds that object (\<open>jumpTo\<close> throws when
  the field is \<open>null\<close>), so the model reads the field again.
\<close>

definition attach :: "('sn, 'ph) env \<Rightarrow> world \<Rightarrow> 'sn state \<Rightarrow> ('sn, unit) result" where
  "attach E w s =
     (case snippet s of
        None \<Rightarrow> (Inr (), s)
      | Some sn \<Rightarrow>
          (case document w s of
             None \<Rightarrow> (Inr (), s)
           | Some doc \<Rightarrow>
               (case line_dot w of
                  None \<Rightarrow> (Inl HostError, s)
                | Some linenr \<Rightarrow>
                    let s1 = s\<lparr>startLnum := Some (linenr - 1),
                                lineCount := Some (doc_lineCount doc)\<rparr>;
                        p = (case firstPlaceholder E sn of
                               None \<Rightarrow> (Inr (), s1)
                             | Some placeholder \<Rightarrow> jumpTo E w placeholder s1)
                    in (case fst p of
                         Inl err \<Rightarrow> (Inl err, snd p)
                       | Inr u \<Rightarrow>
                           let sn1 = (case snippet (snd p) of Some x \<Rightarrow> x | None \<Rightarrow> sn);
                               q = (if hasPlaceholder E sn1 then call w Call_enable (snd p)
                                    else (Inr (), snd p))
                           in (case fst q of
                                 Inl err \<Rightarrow> (Inl err, snd q)
                               | Inr u \<Rightarrow> (let s2 = snd q in (Inr (), s2\<lparr>activted := True\<rparr>)))))))"

text \<open>
  \<open>onDocumentChange\<close> is not an async function: the read of \<open>this.snippet.toString()\<close>
  throws to the caller when the field is \<open>null\<close>, while the rejections of \<open>detach\<close> and
  \<open>onLineChange\<close> go to \<open>onError\<close>.
\<close>

definition onDocumentChange ::
  "('sn, 'ph) env \<Rightarrow> world \<Rightarrow> DidChangeTextDocumentParams \<Rightarrow> 'sn state \<Rightarrow> ('sn, unit) result" where
  "onDocumentChange E w e s =
     (if \<not> activted s then (Inr (), s)
      else
        case document w s of
          None \<Rightarrow> (Inr (), s)
        | Some doc \<Rightarrow>
            if uri s \<noteq> Some (textDocument_uri e) then (Inr (), s)
            else if Some (doc_lineCount doc) \<noteq> lineCount s then catch_onError (detach E w s)
            else
              (case snippet s of
                 None \<Rightarrow> (Inl TypeError, s)
               | Some sn \<Rightarrow>
                   let newLine = doc_getline doc (startLnum s);
                       line = toString E sn
                   in if (case changedtick s of
                            None \<Rightarrow> False
                          | Some tick \<Rightarrow> doc_changedtick doc - tick = 1) then (Inr (), s)
                      else if newLine = line then catch_onError (detach E w s)
                      else catch_onError (onLineChange E w newLine s)))"

text \<open>
  The manager as constructed: \<open>activted = false\<close> and \<open>currIndex = -1\<close> are the two fields
  with an initial value; nothing has been called yet.
\<close>

definition initial :: "'sn state" where
  "initial =
     \<lparr>snippet = None, activted = False, startLnum = None, lineCount = None, uri = None,
      currIndex = - 1, changedtick = None, trace = []\<rparr>"

text \<open>
  The sessions that calls of the public methods and change notifications lead to from
  there, in any worlds and with any arguments.
\<close>

inductive reachable :: "('sn, 'ph) env \<Rightarrow> 'sn state \<Rightarrow> bool" for E :: "('sn, 'ph) env" where
  reach_initial: "reachable E initial"
| reach_attach: "reachable E s \<Longrightarrow> reachable E (snd (attach E w s))"
| reach_detach: "reachable E s \<Longrightarrow> reachable E (snd (detach E w s))"
| reach_insertSnippet:
    "reachable E s \<Longrightarrow> reachable E (snd (insertSnippet E w doc line newLine s))"
| reach_jumpTo: "reachable E s \<Longrightarrow> reachable E (snd (jumpTo E w marker s))"
| reach_jumpNext: "reachable E s \<Longrightarrow> reachable E (snd (jumpNext E w s))"
| reach_jumpPrev: "reachable E s \<Longrightarrow> reachable E (snd (jumpPrev E w s))"
| reach_checkPosition: "reachable E s \<Longrightarrow> reachable E (snd (checkPosition E w s))"
| reach_onDocumentChange:
    "reachable E s \<Longrightarrow> reachable E (snd (onDocumentChange E w e s))"

subsection \<open>Observations on states and traces\<close>

text \<open>
  \<open>activted\<close> is set by \<open>attach\<close> only, which returns early when \<open>snippet\<close> is \<open>null\<close>, and
  \<open>snippet\<close> is set to \<open>null\<close> by \<open>detach\<close> only, after it has cleared \<open>activted\<close>. So an
  active session has a template model: every method keeps it so, and every reachable
  session is so (shown below).
\<close>

definition consistent :: "'sn state \<Rightarrow> bool" where
  "consistent s = (\<not> activted s \<or> snippet s \<noteq> None)"

fun is_write :: "effect \<Rightarrow> bool" where
  "is_write (Buf_setLines u t n) = True"
| "is_write c = False"

fun is_jump :: "effect \<Rightarrow> bool" where
  "is_jump (Call_show_choices l c n vs) = True"
| "is_jump (Call_range_select l c n) = True"
| "is_jump c = False"

definition writes :: "effect list \<Rightarrow> nat" where
  "writes tr = length (filter is_write tr)"

definition jumps :: "effect list \<Rightarrow> effect list" where
  "jumps tr = filter is_jump tr"

text \<open>
  A run of \<open>jumpNext\<close> (of \<open>jumpPrev\<close>) calls, one for each world of the list: between two
  calls the documents and the cursor may have changed. A rejected call leaves its state
  behind like a fulfilled one.
\<close>

fun jumpNext_run :: "('sn, 'ph) env \<Rightarrow> world list \<Rightarrow> 'sn state \<Rightarrow> 'sn state" where
  "jumpNext_run E [] s = s"
| "jumpNext_run E (w # ws) s = jumpNext_run E ws (snd (jumpNext E w s))"

fun jumpPrev_run :: "('sn, 'ph) env \<Rightarrow> world list \<Rightarrow> 'sn state \<Rightarrow> 'sn state" where
  "jumpPrev_run E [] s = s"
| "jumpPrev_run E (w # ws) s = jumpPrev_run E ws (snd (jumpPrev E w s))"

text \<open>
  The session is active over a template with greatest index \<open>m\<close> and the cursor is on the
  bound line: the host answers a line number \<open>lnum\<close> and \<open>startLnum\<close> is \<open>lnum - 1\<close>.
\<close>

definition on_bound_line :: "('sn, 'ph) env \<Rightarrow> int \<Rightarrow> world \<Rightarrow> 'sn state \<Rightarrow> bool" where
  "on_bound_line E m w s =
     (activted s \<and>
      (case line_dot w of None \<Rightarrow> False | Some lnum \<Rightarrow> startLnum s = Some (lnum - 1)) \<and>
      (case snippet s of None \<Rightarrow> False | Some sn \<Rightarrow> maxIndex E sn = m))"

text \<open>The session stays so at the start of every call of the run.\<close>

fun stays_next :: "('sn, 'ph) env \<Rightarrow> int \<Rightarrow> world list \<Rightarrow> 'sn state \<Rightarrow> bool" where
  "stays_next E m [] s = True"
| "stays_next E m (w # ws) s =
     (on_bound_line E m w s \<and> stays_next E m ws (snd (jumpNext E w s)))"

fun stays_prev :: "('sn, 'ph) env \<Rightarrow> int \<Rightarrow> world list \<Rightarrow> 'sn state \<Rightarrow> bool" where
  "stays_prev E m [] s = True"
| "stays_prev E m (w # ws) s =
     (on_bound_line E m w s \<and> stays_prev E m ws (snd (jumpPrev E w s)))"

subsection \<open>An example environment\<close>

text \<open>
  Modelled from the spec: the template model (\<open>./snippet\<close>, \<open>./parser\<close>) and the diff
  utility (\<open>../util/diff\<close>) are not among the sources. The theorems do not depend on
  this instance; it gives them concrete inputs. A template is a flat sequence of literal
  runs and placeholders; a placeholder has an index, a value and an optional choice
  list; placeholders with the same index are mirrors. A reference to a placeholder is
  its position in the sequence together with its index.
\<close>

datatype node = Text string | Placeholder int string "string list option"

type_synonym snip = "node list"
type_synonym ref = "nat \<times> int"

fun node_text :: "node \<Rightarrow> string" where
  "node_text (Text t) = t"
| "node_text (Placeholder i v c) = v"

definition render :: "snip \<Rightarrow> string" where
  "render sn = concat (map node_text sn)"

fun refs_from :: "nat \<Rightarrow> snip \<Rightarrow> ref list" where
  "refs_from k [] = []"
| "refs_from k (Text t # ns) = refs_from (Suc k) ns"
| "refs_from k (Placeholder i v c # ns) = (k, i) # refs_from (Suc k) ns"

definition snip_placeholders :: "snip \<Rightarrow> ref list" where
  "snip_placeholders sn = refs_from 0 sn"

definition snip_maxIndex :: "snip \<Rightarrow> int" where
  "snip_maxIndex sn = fold (\<lambda>r m. max (snd r) m) (snip_placeholders sn) 0"

definition snip_first :: "snip \<Rightarrow> ref option" where
  "snip_first sn = (case snip_placeholders sn of [] \<Rightarrow> None | r # rs \<Rightarrow> Some r)"

definition snip_offset :: "snip \<Rightarrow> ref \<Rightarrow> int" where
  "snip_offset sn r = int (length (render (take (fst r) sn)))"

definition snip_text :: "snip \<Rightarrow> ref \<Rightarrow> string" where
  "snip_text sn r = (if fst r < length sn then node_text (sn ! fst r) else [])"

definition snip_choice :: "snip \<Rightarrow> ref \<Rightarrow> string list option" where
  "snip_choice sn r =
     (if fst r < length sn
      then (case sn ! fst r of Text t \<Rightarrow> None | Placeholder i v c \<Rightarrow> c)
      else None)"

text \<open>The first placeholder whose rendered span contains the offset, and where it starts.\<close>

definition snip_find :: "snip \<Rightarrow> change \<Rightarrow> int \<Rightarrow> ref option \<times> int" where
  "snip_find sn chg pos =
     (case find (\<lambda>r. snip_offset sn r \<le> pos \<and>
                      pos \<le> snip_offset sn r + int (length (snip_text sn r)))
                (snip_placeholders sn) of
        None \<Rightarrow> (None, 0)
      | Some r \<Rightarrow> (Some r, snip_offset sn r))"

text \<open>The placeholder's value with the change spliced in at its offset in the value.\<close>

definition snip_newText :: "snip \<Rightarrow> change \<Rightarrow> ref \<Rightarrow> int \<Rightarrow> string" where
  "snip_newText sn chg r start =
     (let v = snip_text sn r; k = nat (ch_offset chg - start)
      in take k v @ ch_inserted chg @ drop (k + ch_removed chg) v)"

text \<open>The new value goes to every placeholder with the index of the edited one.\<close>

fun set_value :: "int \<Rightarrow> string \<Rightarrow> node \<Rightarrow> node" where
  "set_value i v (Text t) = Text t"
| "set_value i v (Placeholder j u c) = (if j = i then Placeholder j v c else Placeholder j u c)"

definition snip_replaceWith :: "snip \<Rightarrow> ref \<Rightarrow> string \<Rightarrow> snip" where
  "snip_replaceWith sn r v = map (set_value (snd r) v) sn"

text \<open>
  The single replaced region between two strings: what remains between their longest
  common prefix and the longest common suffix of the rest; none for equal strings.
\<close>

fun common_prefix :: "string \<Rightarrow> string \<Rightarrow> nat" where
  "common_prefix (x # xs) (y # ys) = (if x = y then Suc (common_prefix xs ys) else 0)"
| "common_prefix xs ys = 0"

definition diff_region :: "string \<Rightarrow> string \<Rightarrow> change option" where
  "diff_region old new =
     (if old = new then None
      else
        let k = common_prefix old new;
            old' = drop k old;
            new' = drop k new;
            j = common_prefix (rev old') (rev new')
        in Some \<lparr>ch_offset = int k, ch_removed = length old' - j,
                 ch_inserted = take (length new' - j) new'\<rparr>)"

text \<open>
  The parser of the example knows two templates, the one of the spec's scenario and one
  with a mirror, and refuses every other string.
\<close>

definition example_template :: string where
  "example_template = ''foo(${1:bar}, ${2:baz})$0''"

definition mirror_template :: string where
  "mirror_template = ''<${1:div}></${1:div}>$0''"

definition mirror_snip :: snip where
  "mirror_snip =
     [Text ''<'', Placeholder 1 ''div'' None, Text ''></'', Placeholder 1 ''div'' None,
      Text ''>'', Placeholder 0 [] None]"

definition example_snip :: snip where
  "example_snip =
     [Text ''foo('', Placeholder 1 ''bar'' None, Text '', '', Placeholder 2 ''baz'' None,
      Text '')'', Placeholder 0 [] None]"

definition example_parse :: "string \<Rightarrow> snip option" where
  "example_parse t =
     (if t = example_template then Some example_snip
      else if t = mirror_template then Some mirror_snip
      else None)"

definition example_env :: "(snip, ref) env" where
  "example_env =
     \<lparr>parse = example_parse, toString = render, getChangeItem = diff_region,
      findPlaceholder = snip_find, getNewText = snip_newText,
      replaceWith = snip_replaceWith,
      hasPlaceholder = (\<lambda>sn. snip_placeholders sn \<noteq> []),
      firstPlaceholder = snip_first, maxIndex = snip_maxIndex,
      placeholders = snip_placeholders, offset = snip_offset, index = snd,
      ph_toString = snip_text, choice = snip_choice\<rparr>"

text \<open>
  A document of ten lines whose line 3 holds the given text, and a world with that
  document alone, the cursor on line 4 (one-based) and a host that rejects nothing.
\<close>

definition example_doc :: "string \<Rightarrow> int \<Rightarrow> Document" where
  "example_doc l tick =
     \<lparr>doc_uri = ''file:///a.ts'', doc_lineCount = 10, doc_changedtick = tick,
      doc_getline = (\<lambda>n. if n = Some 3 then l else [])\<rparr>"

definition example_world :: "Document \<Rightarrow> world" where
  "example_world d =
     \<lparr>getDocument = (\<lambda>u. if u = Some (doc_uri d) then Some d else None),
      line_dot = Some 4, rejects = (\<lambda>c. False)\<rparr>"

definition init_state :: "snip state" where
  "init_state = initial"

text \<open>
  The session of the spec's scenario, after \<open>insertSnippet\<close> and \<open>attach\<close> (shown below to be
  the state these two calls produce).
\<close>

definition example_active :: "snip state" where
  "example_active =
     \<lparr>snippet = Some example_snip, activted = True, startLnum = Some 3,
      lineCount = Some 10, uri = Some ''file:///a.ts'', currIndex = 1, changedtick = Some 7,
      trace = [Buf_setLines ''file:///a.ts'' ''foo(bar, baz)'' (Some 3),
               Call_range_select (Some 4) 5 3, Call_enable]\<rparr>"

text \<open>The same for the template with the mirror.\<close>

definition mirror_active :: "snip state" where
  "mirror_active =
     \<lparr>snippet = Some mirror_snip, activted = True, startLnum = Some 3,
      lineCount = Some 10, uri = Some ''file:///a.ts'', currIndex = 1, changedtick = Some 7,
      trace = [Buf_setLines ''file:///a.ts'' ''<div></div>'' (Some 3),
               Call_range_select (Some 4) 2 3, Call_enable]\<rparr>"

definition example_event :: DidChangeTextDocumentParams where
  "example_event = \<lparr>textDocument_uri = ''file:///a.ts''\<rparr>"

section \<open>Properties\<close>

lemmas example_defs = example_env_def example_parse_def example_template_def mirror_template_def
  example_snip_def mirror_snip_def example_doc_def example_world_def init_state_def initial_def
  example_active_def mirror_active_def example_event_def
  render_def snip_placeholders_def snip_maxIndex_def snip_first_def snip_offset_def snip_text_def
  snip_choice_def snip_find_def snip_newText_def snip_replaceWith_def diff_region_def

lemmas method_defs = call_def onError_def catch_onError_def document_def detach_def
  onLineChange_def insertSnippet_def ensureCurrentLine_def jumpTo_def checkPosition_def
  jumpNext_def jumpPrev_def attach_def onDocumentChange_def

lemma example_active_reached:
  "snd (attach example_env (example_world (example_doc ''foo(bar, baz)'' 8))
     (snd (insertSnippet example_env (example_world (example_doc [] 7)) (example_doc [] 7) 3
        example_template init_state))) = example_active"
  by (simp add: example_defs method_defs)

lemma mirror_active_reached:
  "snd (attach example_env (example_world (example_doc ''<div></div>'' 8))
     (snd (insertSnippet example_env (example_world (example_doc [] 7)) (example_doc [] 7) 3
        mirror_template init_state))) = mirror_active"
  by (simp add: example_defs method_defs)

subsection \<open>detach\<close>

lemma detach_inactive: "\<not> activted s \<Longrightarrow> detach E w s = (Inr (), s)"
  by (simp add: detach_def)

lemma detach_fulfils: "consistent s \<Longrightarrow> fst (detach E w s) = Inr ()"
  by (auto simp: detach_def consistent_def catch_onError_def call_def Let_def split: option.splits)

lemma detach_not_activted: "\<not> activted (snd (detach E w s))"
  by (auto simp: detach_def catch_onError_def call_def onError_def Let_def split: option.splits)

lemma detach_uri: "activted s \<Longrightarrow> uri (snd (detach E w s)) = Some []"
  by (auto simp: detach_def catch_onError_def call_def onError_def Let_def split: option.splits)

lemma detach_fields:
  "startLnum (snd (detach E w s)) = startLnum s"
  "lineCount (snd (detach E w s)) = lineCount s"
  "currIndex (snd (detach E w s)) = currIndex s"
  "changedtick (snd (detach E w s)) = changedtick s"
  by (auto simp: detach_def catch_onError_def call_def onError_def Let_def split: option.splits)

lemma detach_snippet: "snippet (snd (detach E w s)) = snippet s \<or> snippet (snd (detach E w s)) = None"
  by (auto simp: detach_def catch_onError_def call_def onError_def Let_def split: option.splits)

lemma detach_writes: "writes (trace (snd (detach E w s))) = writes (trace s)"
  by (auto simp: detach_def catch_onError_def call_def onError_def writes_def Let_def split: option.splits)

lemma detach_jumps: "jumps (trace (snd (detach E w s))) = jumps (trace s)"
  by (auto simp: detach_def catch_onError_def call_def onError_def jumps_def Let_def split: option.splits)

lemma detach_consistent: "consistent (snd (detach E w s))"
  by (simp add: consistent_def detach_not_activted)

lemma catch_detach: "consistent s \<Longrightarrow> catch_onError (detach E w s) = detach E w s"
  using detach_fulfils [of s E w] by (cases "detach E w s") (simp add: catch_onError_def)

subsection \<open>onLineChange\<close>

lemma onLineChange_outside:
  assumes "document w s = Some doc" and "snippet s = Some sn"
    and "getChangeItem E (toString E sn) content = Some chg"
    and "case fst (findPlaceholder E sn chg (ch_offset chg)) of
           None \<Rightarrow> True | Some p \<Rightarrow> index E p = 0"
  shows "onLineChange E w content s = detach E w s"
  using assms
  by (cases "findPlaceholder E sn chg (ch_offset chg)")
     (auto simp: onLineChange_def Let_def split: option.splits)

lemma onLineChange_inside:
  assumes "document w s = Some doc" and "snippet s = Some sn"
    and "getChangeItem E (toString E sn) content = Some chg"
    and "findPlaceholder E sn chg (ch_offset chg) = (Some p, start)"
    and "index E p \<noteq> 0"
  shows "onLineChange E w content s =
     (let sn' = replaceWith E sn p (getNewText E sn chg p start);
          s1 = s\<lparr>snippet := Some sn', changedtick := Some (doc_changedtick doc)\<rparr>
      in if toString E sn' = content then (Inr (), s1)
         else call w (Buf_setLines (doc_uri doc) (toString E sn') (startLnum s)) s1)"
  using assms by (simp add: onLineChange_def Let_def)

lemma onLineChange_fields:
  "startLnum (snd (onLineChange E w content s)) = startLnum s"
  "lineCount (snd (onLineChange E w content s)) = lineCount s"
  "currIndex (snd (onLineChange E w content s)) = currIndex s"
  by (auto simp: onLineChange_def call_def detach_fields Let_def split: option.splits prod.splits)

lemma jumps_snoc: "jumps (tr @ [c]) = (if is_jump c then jumps tr @ [c] else jumps tr)"
  by (simp add: jumps_def)

lemma writes_snoc: "writes (tr @ [c]) = (if is_write c then Suc (writes tr) else writes tr)"
  by (simp add: writes_def)

lemma onLineChange_jumps: "jumps (trace (snd (onLineChange E w content s))) = jumps (trace s)"
  by (auto simp: onLineChange_def call_def detach_jumps jumps_snoc Let_def
      split: option.splits prod.splits)

lemma consistent_updates:
  "consistent (s\<lparr>snippet := Some sn\<rparr>)"
  "consistent (s\<lparr>activted := False\<rparr>)"
  "consistent (s\<lparr>startLnum := a\<rparr>) = consistent s"
  "consistent (s\<lparr>lineCount := b\<rparr>) = consistent s"
  "consistent (s\<lparr>uri := u\<rparr>) = consistent s"
  "consistent (s\<lparr>currIndex := i\<rparr>) = consistent s"
  "consistent (s\<lparr>changedtick := k\<rparr>) = consistent s"
  "consistent (s\<lparr>trace := tr\<rparr>) = consistent s"
  by (simp_all add: consistent_def)

lemma call_consistent: "consistent (snd (call w c s)) = consistent s"
  by (simp add: call_def consistent_updates)

lemma catch_onError_consistent: "consistent (snd (catch_onError p)) = consistent (snd p)"
  by (cases "fst p") (simp_all add: catch_onError_def onError_def consistent_updates)

lemma onLineChange_consistent:
  "consistent s \<Longrightarrow> consistent (snd (onLineChange E w content s))"
  by (auto simp: onLineChange_def call_consistent detach_consistent consistent_updates Let_def
      split: option.splits prod.splits)

subsection \<open>The other methods keep the session consistent\<close>

lemma ensureCurrentLine_consistent:
  "consistent s \<Longrightarrow> consistent (snd (ensureCurrentLine E w s))"
  by (auto simp: ensureCurrentLine_def onLineChange_consistent Let_def split: option.splits)

lemma ensureCurrentLine_currIndex:
  "currIndex (snd (ensureCurrentLine E w s)) = currIndex s"
  by (auto simp: ensureCurrentLine_def onLineChange_fields Let_def split: option.splits)

lemma jumpTo_consistent: "consistent s \<Longrightarrow> consistent (snd (jumpTo E w marker s))"
  using ensureCurrentLine_consistent [of s E w]
  by (auto simp: jumpTo_def call_consistent consistent_updates Let_def
      split: option.splits sum.splits)

lemma jumpTo_currIndex:
  "currIndex (snd (jumpTo E w marker s)) = currIndex s \<or>
   currIndex (snd (jumpTo E w marker s)) = index E marker"
  using ensureCurrentLine_currIndex [of E w s]
  by (auto simp: jumpTo_def call_def Let_def split: option.splits sum.splits)

lemma jumpTo_snippet:
  "fst (jumpTo E w marker s) = Inr () \<Longrightarrow> snippet (snd (jumpTo E w marker s)) \<noteq> None"
  by (auto simp: jumpTo_def call_def Let_def split: option.splits sum.splits)

lemma checkPosition_consistent:
  "consistent s \<Longrightarrow> consistent (snd (checkPosition E w s))"
  by (auto simp: checkPosition_def detach_consistent Let_def split: option.splits sum.splits)

lemma jumpNext_consistent: "consistent s \<Longrightarrow> consistent (snd (jumpNext E w s))"
  using checkPosition_consistent [of s E w]
  by (auto simp: jumpNext_def Let_def jumpTo_consistent consistent_updates
      split: option.splits sum.splits)

lemma jumpPrev_consistent: "consistent s \<Longrightarrow> consistent (snd (jumpPrev E w s))"
  using checkPosition_consistent [of s E w]
  by (auto simp: jumpPrev_def Let_def jumpTo_consistent consistent_updates
      split: option.splits sum.splits)

lemma insertSnippet_consistent: "consistent (snd (insertSnippet E w doc line newLine s))"
  by (auto simp: insertSnippet_def Let_def onError_def catch_onError_consistent call_consistent
      consistent_updates detach_consistent consistent_def [of s] split: option.splits sum.splits)

lemma onDocumentChange_consistent:
  "consistent s \<Longrightarrow> consistent (snd (onDocumentChange E w e s))"
  by (auto simp: onDocumentChange_def Let_def catch_onError_consistent detach_consistent
      onLineChange_consistent split: option.splits)

lemma consistent_activate:
  "snippet s \<noteq> None \<Longrightarrow> consistent (s\<lparr>trace := tr, activted := True\<rparr>)"
  "snippet s \<noteq> None \<Longrightarrow> consistent (s\<lparr>activted := True\<rparr>)"
  by (simp_all add: consistent_def)

lemma attach_consistent: "consistent s \<Longrightarrow> consistent (snd (attach E w s))"
proof -
  assume c: "consistent s"
  have j: "consistent (snd (jumpTo E w m (s\<lparr>startLnum := a, lineCount := b\<rparr>)))" for a b m
    using c by (simp add: jumpTo_consistent consistent_updates)
  have n: "fst (jumpTo E w m (s\<lparr>startLnum := a, lineCount := b\<rparr>)) = Inr () \<Longrightarrow>
      snippet (snd (jumpTo E w m (s\<lparr>startLnum := a, lineCount := b\<rparr>))) = None \<Longrightarrow> False"
    for a b m
    using jumpTo_snippet [of E w m "s\<lparr>startLnum := a, lineCount := b\<rparr>"] by simp
  show ?thesis
    using c j
    by (auto simp: attach_def Let_def call_def consistent_updates
        split: option.splits sum.splits intro!: consistent_activate dest: n)
qed

text \<open>Every reachable session is consistent.\<close>

lemma reachable_consistent: "reachable E s \<Longrightarrow> consistent s"
proof (induction rule: reachable.induct)
  case reach_initial
  show ?case by (simp add: consistent_def initial_def)
next
  case (reach_attach s w)
  then show ?case by (simp add: attach_consistent)
next
  case (reach_detach s w)
  show ?case by (rule detach_consistent)
next
  case (reach_insertSnippet s w doc line newLine)
  show ?case by (rule insertSnippet_consistent)
next
  case (reach_jumpTo s w marker)
  then show ?case by (simp add: jumpTo_consistent)
next
  case (reach_jumpNext s w)
  then show ?case by (simp add: jumpNext_consistent)
next
  case (reach_jumpPrev s w)
  then show ?case by (simp add: jumpPrev_consistent)
next
  case (reach_checkPosition s w)
  then show ?case by (simp add: checkPosition_consistent)
next
  case (reach_onDocumentChange s w e)
  then show ?case by (simp add: onDocumentChange_consistent)
qed

text \<open>The two example sessions are reachable.\<close>

lemma example_active_reachable: "reachable example_env example_active"
  unfolding example_active_reached [symmetric] init_state_def
  by (intro reach_attach reach_insertSnippet reach_initial)

lemma mirror_active_reachable: "reachable example_env mirror_active"
  unfolding mirror_active_reached [symmetric] init_state_def
  by (intro reach_attach reach_insertSnippet reach_initial)

subsection \<open>Claims on detach and onLineChange\<close>

text \<open>
  C8. \<open>detach\<close> never rejects: on an inactive session it does nothing; on an active one
  it ends with the session inactive and the URI cleared. When the template has no
  placeholder it returns there, keeping the model and calling nothing; otherwise it
  discards the model and calls the host's disable function, and a rejection of that call
  is logged and not passed on.
\<close>

theorem detach_never_rejects:
  assumes "consistent s"
  shows "fst (detach E w s) = Inr () \<and>
    (\<not> activted s \<longrightarrow> detach E w s = (Inr (), s)) \<and>
    (activted s \<longrightarrow> \<not> activted (snd (detach E w s)) \<and> uri (snd (detach E w s)) = Some []) \<and>
    (\<forall>sn. activted s \<and> snippet s = Some sn \<and> \<not> hasPlaceholder E sn \<longrightarrow>
       detach E w s = (Inr (), s\<lparr>activted := False, uri := Some []\<rparr>)) \<and>
    (\<forall>sn. activted s \<and> snippet s = Some sn \<and> hasPlaceholder E sn \<longrightarrow>
       detach E w s =
         (Inr (), s\<lparr>activted := False, uri := Some [], snippet := None,
                     trace := trace s @ (if rejects w Call_disable
                                         then [Call_disable, Log_error HostError]
                                         else [Call_disable])\<rparr>))"
proof -
  have "fst (detach E w s) = Inr ()"
    using assms by (rule detach_fulfils)
  moreover have "\<not> activted s \<longrightarrow> detach E w s = (Inr (), s)"
    by (simp add: detach_inactive)
  moreover have "activted s \<longrightarrow>
      \<not> activted (snd (detach E w s)) \<and> uri (snd (detach E w s)) = Some []"
    by (simp add: detach_not_activted detach_uri)
  moreover have "\<forall>sn. activted s \<and> snippet s = Some sn \<and> \<not> hasPlaceholder E sn \<longrightarrow>
       detach E w s = (Inr (), s\<lparr>activted := False, uri := Some []\<rparr>)"
    by (simp add: detach_def)
  moreover have "\<forall>sn. activted s \<and> snippet s = Some sn \<and> hasPlaceholder E sn \<longrightarrow>
       detach E w s =
         (Inr (), s\<lparr>activted := False, uri := Some [], snippet := None,
                     trace := trace s @ (if rejects w Call_disable
                                         then [Call_disable, Log_error HostError]
                                         else [Call_disable])\<rparr>)"
    by (simp add: detach_def catch_onError_def call_def onError_def)
  ultimately show ?thesis by blast
qed

text \<open>
  The three cases at concrete sessions: the initial, inactive one; the active session
  of the scenario with a host that rejects the disable call; an active session over a
  template without placeholders.
\<close>

theorem detach_never_rejects_witness:
  "consistent init_state \<and> consistent example_active \<and>
   detach example_env (example_world (example_doc [] 7)) init_state = (Inr (), init_state) \<and>
   detach example_env ((example_world (example_doc [] 7))\<lparr>rejects := (\<lambda>c. c = Call_disable)\<rparr>)
       example_active =
     (Inr (), example_active\<lparr>activted := False, uri := Some [], snippet := None,
        trace := trace example_active @ [Call_disable, Log_error HostError]\<rparr>) \<and>
   detach example_env (example_world (example_doc [] 7))
       (example_active\<lparr>snippet := Some [Text ''done'']\<rparr>) =
     (Inr (), example_active\<lparr>snippet := Some [Text ''done''], activted := False, uri := Some []\<rparr>)"
proof -
  have a: "consistent init_state" and b: "consistent example_active"
    and c: "consistent (example_active\<lparr>snippet := Some [Text ''done'']\<rparr>)"
    by (simp_all add: consistent_def init_state_def initial_def example_active_def)
  show ?thesis
    using a b
      detach_never_rejects [OF a, of example_env "example_world (example_doc [] 7)"]
      detach_never_rejects [OF b, of example_env
        "(example_world (example_doc [] 7))\<lparr>rejects := (\<lambda>c. c = Call_disable)\<rparr>"]
      detach_never_rejects [OF c, of example_env "example_world (example_doc [] 7)"]
    by (simp add: example_defs)
qed

text \<open>
  C2. When the diff of the rendered text against the new content gives a change and no
  placeholder contains its offset, or the one found has index 0, \<open>onLineChange\<close> is a
  \<open>detach\<close>: the session is inactive afterwards, the model is the old one or discarded
  (no value in it is updated), and no write is issued.
\<close>

theorem onLineChange_outside_detaches:
  assumes "document w s = Some doc" and "snippet s = Some sn"
    and "getChangeItem E (toString E sn) content = Some chg"
    and "case fst (findPlaceholder E sn chg (ch_offset chg)) of
           None \<Rightarrow> True | Some p \<Rightarrow> index E p = 0"
  shows "onLineChange E w content s = detach E w s \<and>
    \<not> activted (snd (onLineChange E w content s)) \<and>
    (snippet (snd (onLineChange E w content s)) = Some sn \<or>
     snippet (snd (onLineChange E w content s)) = None) \<and>
    writes (trace (snd (onLineChange E w content s))) = writes (trace s)"
proof -
  have eq: "onLineChange E w content s = detach E w s"
    using assms by (rule onLineChange_outside)
  show ?thesis
    using detach_snippet [of E w s] assms(2)
    by (simp add: eq detach_not_activted detach_writes)
qed

text \<open>
  The scenario's session with a character typed after the closing parenthesis, where
  the final placeholder (index 0) is, and with one typed before \<open>foo\<close>, in no placeholder.
\<close>

theorem onLineChange_outside_detaches_witness:
  "document (example_world (example_doc ''foo(bar, baz);'' 9)) example_active
     = Some (example_doc ''foo(bar, baz);'' 9) \<and>
   getChangeItem example_env (toString example_env example_snip) ''foo(bar, baz);''
     = Some \<lparr>ch_offset = 13, ch_removed = 0, ch_inserted = '';''\<rparr> \<and>
   fst (findPlaceholder example_env example_snip
          \<lparr>ch_offset = 13, ch_removed = 0, ch_inserted = '';''\<rparr> 13) = Some (5, 0) \<and>
   getChangeItem example_env (toString example_env example_snip) ''xfoo(bar, baz)''
     = Some \<lparr>ch_offset = 0, ch_removed = 0, ch_inserted = ''x''\<rparr> \<and>
   fst (findPlaceholder example_env example_snip
          \<lparr>ch_offset = 0, ch_removed = 0, ch_inserted = ''x''\<rparr> 0) = None \<and>
   \<not> activted (snd (onLineChange example_env
       (example_world (example_doc ''foo(bar, baz);'' 9)) ''foo(bar, baz);'' example_active)) \<and>
   \<not> activted (snd (onLineChange example_env
       (example_world (example_doc ''xfoo(bar, baz)'' 9)) ''xfoo(bar, baz)'' example_active)) \<and>
   writes (trace (snd (onLineChange example_env
       (example_world (example_doc ''xfoo(bar, baz)'' 9)) ''xfoo(bar, baz)'' example_active))) = 1"
proof -
  let ?c1 = "\<lparr>ch_offset = 13, ch_removed = 0, ch_inserted = '';''\<rparr>"
  let ?c2 = "\<lparr>ch_offset = 0, ch_removed = 0, ch_inserted = ''x''\<rparr>"
  have d1: "document (example_world (example_doc ''foo(bar, baz);'' 9)) example_active
      = Some (example_doc ''foo(bar, baz);'' 9)"
    and d2: "document (example_world (example_doc ''xfoo(bar, baz)'' 9)) example_active
      = Some (example_doc ''xfoo(bar, baz)'' 9)"
    and sn: "snippet example_active = Some example_snip"
    by (simp_all add: document_def example_defs)
  have g1: "getChangeItem example_env (toString example_env example_snip) ''foo(bar, baz);''
      = Some ?c1"
    and g2: "getChangeItem example_env (toString example_env example_snip) ''xfoo(bar, baz)''
      = Some ?c2"
    by (simp_all add: example_defs)
  have f1: "fst (findPlaceholder example_env example_snip ?c1 13) = Some (5, 0)"
    and f2: "fst (findPlaceholder example_env example_snip ?c2 0) = None"
    by (simp_all add: example_defs)
  have h1: "case fst (findPlaceholder example_env example_snip ?c1 (ch_offset ?c1)) of
      None \<Rightarrow> True | Some p \<Rightarrow> index example_env p = 0"
    using f1 by (simp add: example_env_def)
  have h2: "case fst (findPlaceholder example_env example_snip ?c2 (ch_offset ?c2)) of
      None \<Rightarrow> True | Some p \<Rightarrow> index example_env p = 0"
    using f2 by simp
  have w: "writes (trace example_active) = 1"
    by (simp add: example_active_def writes_def)
  have w': "writes (trace (snd (onLineChange example_env
       (example_world (example_doc ''xfoo(bar, baz)'' 9)) ''xfoo(bar, baz)'' example_active)))
      = writes (trace example_active)"
    using onLineChange_outside_detaches [OF d2 sn g2 h2] by blast
  show ?thesis
    using onLineChange_outside_detaches [OF d1 sn g1 h1]
      onLineChange_outside_detaches [OF d2 sn g2 h2] d1 g1 g2 f1 f2 w' [unfolded w]
    by blast
qed

text \<open>
  C3. When \<open>onLineChange\<close> finds a placeholder with an index other than 0 for the change,
  the model gets the placeholder's new value and is rendered again; the line is written
  back if and only if the rendered text differs from the new content. The change
  counter is recorded before the write is issued: the state that the call to
  \<open>setLines\<close> starts from already holds it, also when the host rejects the call.
\<close>

theorem onLineChange_inside_updates:
  assumes "document w s = Some doc" and "snippet s = Some sn"
    and "getChangeItem E (toString E sn) content = Some chg"
    and "findPlaceholder E sn chg (ch_offset chg) = (Some p, start)"
    and "index E p \<noteq> 0"
  shows "let sn' = replaceWith E sn p (getNewText E sn chg p start);
             line = toString E sn';
             s1 = s\<lparr>snippet := Some sn', changedtick := Some (doc_changedtick doc)\<rparr>;
             r = onLineChange E w content s
         in snippet (snd r) = Some sn' \<and>
            changedtick (snd r) = Some (doc_changedtick doc) \<and>
            (line = content \<longrightarrow> r = (Inr (), s1)) \<and>
            (line \<noteq> content \<longrightarrow>
               r = call w (Buf_setLines (doc_uri doc) line (startLnum s)) s1 \<and>
               trace (snd r) = trace s @ [Buf_setLines (doc_uri doc) line (startLnum s)]) \<and>
            (writes (trace (snd r)) = Suc (writes (trace s)) \<longleftrightarrow> line \<noteq> content) \<and>
            (writes (trace (snd r)) = writes (trace s) \<longleftrightarrow> line = content)"
  by (simp add: onLineChange_inside [OF assms] Let_def call_def writes_snoc)

text \<open>
  An edit of the first \<open>div\<close> of a mirrored pair: the mirror is updated too, the rendered
  line differs from the edited one and is written back. An edit of \<open>bar\<close> in the scenario's
  template: the rendered line is the edited one, nothing is written.
\<close>

theorem onLineChange_inside_updates_witness:
  "onLineChange example_env (example_world (example_doc ''<span></div>'' 9)) ''<span></div>''
     mirror_active =
   (Inr (), mirror_active\<lparr>
      snippet := Some [Text ''<'', Placeholder 1 ''span'' None, Text ''></'',
                       Placeholder 1 ''span'' None, Text ''>'', Placeholder 0 [] None],
      changedtick := Some 9,
      trace := trace mirror_active @ [Buf_setLines ''file:///a.ts'' ''<span></span>'' (Some 3)]\<rparr>) \<and>
   onLineChange example_env (example_world (example_doc ''foo(qux, baz)'' 9)) ''foo(qux, baz)''
     example_active =
   (Inr (), example_active\<lparr>
      snippet := Some [Text ''foo('', Placeholder 1 ''qux'' None, Text '', '',
                       Placeholder 2 ''baz'' None, Text '')'', Placeholder 0 [] None],
      changedtick := Some 9\<rparr>)"
proof -
  let ?c1 = "\<lparr>ch_offset = 1, ch_removed = 3, ch_inserted = ''span''\<rparr>"
  let ?c2 = "\<lparr>ch_offset = 4, ch_removed = 3, ch_inserted = ''qux''\<rparr>"
  have d1: "document (example_world (example_doc ''<span></div>'' 9)) mirror_active
      = Some (example_doc ''<span></div>'' 9)"
    and d2: "document (example_world (example_doc ''foo(qux, baz)'' 9)) example_active
      = Some (example_doc ''foo(qux, baz)'' 9)"
    and s1: "snippet mirror_active = Some mirror_snip"
    and s2: "snippet example_active = Some example_snip"
    by (simp_all add: document_def example_defs)
  have g1: "getChangeItem example_env (toString example_env mirror_snip) ''<span></div>''
      = Some ?c1"
    and g2: "getChangeItem example_env (toString example_env example_snip) ''foo(qux, baz)''
      = Some ?c2"
    by (simp_all add: example_defs)
  have f1: "findPlaceholder example_env mirror_snip ?c1 (ch_offset ?c1) = (Some (1, 1), 1)"
    and f2: "findPlaceholder example_env example_snip ?c2 (ch_offset ?c2) = (Some (1, 1), 4)"
    by (simp_all add: example_defs)
  have i: "index example_env (1, 1) \<noteq> 0"
    by (simp add: example_env_def)
  show ?thesis
    using onLineChange_inside_updates [OF d1 s1 g1 f1 i]
      onLineChange_inside_updates [OF d2 s2 g2 f2 i]
    by (simp add: example_defs call_def Let_def)
qed

subsection \<open>Claims on onDocumentChange\<close>

lemma onLineChange_write:
  assumes "document w s = Some doc"
    and "writes (trace (snd (onLineChange E w content s))) \<noteq> writes (trace s)"
  shows "changedtick (snd (onLineChange E w content s)) = Some (doc_changedtick doc) \<and>
    snippet (snd (onLineChange E w content s)) \<noteq> None \<and>
    activted (snd (onLineChange E w content s)) = activted s \<and>
    uri (snd (onLineChange E w content s)) = uri s \<and>
    writes (trace (snd (onLineChange E w content s))) = Suc (writes (trace s))"
  using assms
  by (auto simp: onLineChange_def Let_def call_def writes_snoc detach_writes
      split: option.splits prod.splits if_splits)

text \<open>
  The test \<open>document.changedtick - this.changedtick == 1\<close> holds exactly when the recorded
  counter is defined and is the document's counter less one.
\<close>

lemma own_tick_iff:
  "(case changedtick s of None \<Rightarrow> False | Some tick \<Rightarrow> doc_changedtick doc - tick = 1)
     \<longleftrightarrow> changedtick s = Some (doc_changedtick doc - 1)"
  by (cases "changedtick s") auto

lemma onDocumentChange_delta_one:
  assumes "snippet s \<noteq> None" and "document w s = Some doc"
    and "lineCount s = Some (doc_lineCount doc)" and "changedtick s = Some (doc_changedtick doc - 1)"
  shows "onDocumentChange E w e s = (Inr (), s)"
  using assms by (auto simp: onDocumentChange_def Let_def)

lemma own_write_round_trip:
  assumes "document w0 s0 = Some doc0"
    and "writes (trace (snd (onLineChange E w0 content s0))) \<noteq> writes (trace s0)"
    and "document w (snd (onLineChange E w0 content s0)) = Some doc"
    and "lineCount (snd (onLineChange E w0 content s0)) = Some (doc_lineCount doc)"
    and "doc_changedtick doc = doc_changedtick doc0 + 1"
  shows "activted (snd (onLineChange E w0 content s0)) = activted s0"
    and "onDocumentChange E w e (snd (onLineChange E w0 content s0))
           = (Inr (), snd (onLineChange E w0 content s0))"
    and "writes (trace (snd (onDocumentChange E w e (snd (onLineChange E w0 content s0)))))
           = Suc (writes (trace s0))"
proof -
  note k = onLineChange_write [OF assms(1,2)]
  have t: "changedtick (snd (onLineChange E w0 content s0)) = Some (doc_changedtick doc - 1)"
    using k assms(5) by simp
  have sn: "snippet (snd (onLineChange E w0 content s0)) \<noteq> None"
    using k by simp
  show "activted (snd (onLineChange E w0 content s0)) = activted s0"
    using k by simp
  show o: "onDocumentChange E w e (snd (onLineChange E w0 content s0))
      = (Inr (), snd (onLineChange E w0 content s0))"
    by (rule onDocumentChange_delta_one [OF sn assms(3,4) t])
  show "writes (trace (snd (onDocumentChange E w e (snd (onLineChange E w0 content s0)))))
      = Suc (writes (trace s0))"
    using k by (simp add: o)
qed

text \<open>
  C1. While the session is active and bound, the event is for its document and the line
  count is the recorded one, a notification that finds the document's counter exactly
  one past the recorded counter changes nothing and issues no call. Hence, when
  \<open>onLineChange\<close> has written a line and the document then reports its counter advanced
  by one, the notification of that write is ignored and the write stays the only one.
\<close>

theorem onDocumentChange_ignores_own_write:
  "(activted s \<and> consistent s \<and> document w s = Some doc \<and> uri s = Some (textDocument_uri e) \<and>
    lineCount s = Some (doc_lineCount doc) \<and> changedtick s = Some (doc_changedtick doc - 1) \<longrightarrow>
      onDocumentChange E w e s = (Inr (), s)) \<and>
   (activted s0 \<and> document w0 s0 = Some doc0 \<and>
    s = snd (onLineChange E w0 content s0) \<and> writes (trace s) \<noteq> writes (trace s0) \<and>
    document w s = Some doc \<and> uri s = Some (textDocument_uri e) \<and>
    lineCount s = Some (doc_lineCount doc) \<and> doc_changedtick doc = doc_changedtick doc0 + 1 \<longrightarrow>
      activted s \<and> onDocumentChange E w e s = (Inr (), s) \<and>
      writes (trace (snd (onDocumentChange E w e s))) = Suc (writes (trace s0)))"
proof (intro conjI impI)
  assume a: "activted s \<and> consistent s \<and> document w s = Some doc \<and>
    uri s = Some (textDocument_uri e) \<and> lineCount s = Some (doc_lineCount doc) \<and>
    changedtick s = Some (doc_changedtick doc - 1)"
  then have "snippet s \<noteq> None"
    by (auto simp: consistent_def)
  with a show "onDocumentChange E w e s = (Inr (), s)"
    by (simp add: onDocumentChange_delta_one)
next
  assume b: "activted s0 \<and> document w0 s0 = Some doc0 \<and>
    s = snd (onLineChange E w0 content s0) \<and> writes (trace s) \<noteq> writes (trace s0) \<and>
    document w s = Some doc \<and> uri s = Some (textDocument_uri e) \<and>
    lineCount s = Some (doc_lineCount doc) \<and> doc_changedtick doc = doc_changedtick doc0 + 1"
  then have eq: "s = snd (onLineChange E w0 content s0)"
    by blast
  from b have h: "activted s0" "document w0 s0 = Some doc0"
    "writes (trace (snd (onLineChange E w0 content s0))) \<noteq> writes (trace s0)"
    "document w (snd (onLineChange E w0 content s0)) = Some doc"
    "lineCount (snd (onLineChange E w0 content s0)) = Some (doc_lineCount doc)"
    "doc_changedtick doc = doc_changedtick doc0 + 1"
    unfolding eq by blast+
  show "activted s"
    unfolding eq using own_write_round_trip(1) [OF h(2-6)] h(1) by simp
  show "onDocumentChange E w e s = (Inr (), s)"
    unfolding eq by (rule own_write_round_trip(2) [OF h(2-6)])
  show "writes (trace (snd (onDocumentChange E w e s))) = Suc (writes (trace s0))"
    unfolding eq by (rule own_write_round_trip(3) [OF h(2-6)])
qed

text \<open>
  The edit of the mirrored pair: \<open>onLineChange\<close> writes \<open><span></span>\<close> at counter 9, the
  document then holds that line at counter 10, and the notification leaves the session
  as it is, with the two writes of the trace: the insertion and the correction.
\<close>

theorem onDocumentChange_ignores_own_write_witness:
  "activted (snd (onLineChange example_env (example_world (example_doc ''<span></div>'' 9))
     ''<span></div>'' mirror_active)) \<and>
   consistent (snd (onLineChange example_env (example_world (example_doc ''<span></div>'' 9))
     ''<span></div>'' mirror_active)) \<and>
   changedtick (snd (onLineChange example_env (example_world (example_doc ''<span></div>'' 9))
     ''<span></div>'' mirror_active))
     = Some (doc_changedtick (example_doc ''<span></span>'' 10) - 1) \<and>
   activted mirror_active \<and>
   document (example_world (example_doc ''<span></div>'' 9)) mirror_active
     = Some (example_doc ''<span></div>'' 9) \<and>
   writes (trace (snd (onLineChange example_env (example_world (example_doc ''<span></div>'' 9))
     ''<span></div>'' mirror_active))) = 2 \<and>
   writes (trace mirror_active) = 1 \<and>
   onDocumentChange example_env (example_world (example_doc ''<span></span>'' 10)) example_event
     (snd (onLineChange example_env (example_world (example_doc ''<span></div>'' 9))
        ''<span></div>'' mirror_active)) =
   (Inr (), snd (onLineChange example_env (example_world (example_doc ''<span></div>'' 9))
        ''<span></div>'' mirror_active)) \<and>
   writes (trace (snd (onDocumentChange example_env
     (example_world (example_doc ''<span></span>'' 10)) example_event
     (snd (onLineChange example_env (example_world (example_doc ''<span></div>'' 9))
        ''<span></div>'' mirror_active))))) = 2"
proof -
  let ?v = "example_world (example_doc ''<span></div>'' 9)"
  let ?w = "example_world (example_doc ''<span></span>'' 10)"
  let ?s = "snd (onLineChange example_env ?v ''<span></div>'' mirror_active)"
  have s: "?s = mirror_active\<lparr>
      snippet := Some [Text ''<'', Placeholder 1 ''span'' None, Text ''></'',
                       Placeholder 1 ''span'' None, Text ''>'', Placeholder 0 [] None],
      changedtick := Some 9,
      trace := trace mirror_active @ [Buf_setLines ''file:///a.ts'' ''<span></span>'' (Some 3)]\<rparr>"
    by (simp add: example_defs onLineChange_def document_def call_def Let_def)
  have h: "activted mirror_active"
    "document ?v mirror_active = Some (example_doc ''<span></div>'' 9)"
    "writes (trace mirror_active) = 1"
    "writes (trace ?s) = 2"
    "document ?w ?s = Some (example_doc ''<span></span>'' 10)"
    "uri ?s = Some (textDocument_uri example_event)"
    "lineCount ?s = Some (doc_lineCount (example_doc ''<span></span>'' 10))"
    "doc_changedtick (example_doc ''<span></span>'' 10)
       = doc_changedtick (example_doc ''<span></div>'' 9) + 1"
    unfolding s by (simp_all add: example_defs document_def writes_def)
  have n: "writes (trace ?s) \<noteq> writes (trace mirror_active)"
    unfolding h(3) h(4) by simp
  have g: "activted ?s" "consistent ?s"
    "changedtick ?s = Some (doc_changedtick (example_doc ''<span></span>'' 10) - 1)"
    unfolding s by (simp_all add: example_defs consistent_def)
  show ?thesis
    using g onDocumentChange_ignores_own_write [where s = ?s and E = example_env and w = ?w
        and doc = "example_doc ''<span></span>'' 10" and e = example_event,
        THEN conjunct1, rule_format, OF conjI [OF g(1) conjI [OF g(2) conjI [OF h(5)
          conjI [OF h(6) conjI [OF h(7) g(3)]]]]]]
       onDocumentChange_ignores_own_write [where ?s0.0 = mirror_active and ?w0.0 = ?v
        and ?doc0.0 = "example_doc ''<span></div>'' 9" and s = ?s and E = example_env
        and content = "''<span></div>''" and w = ?w
        and doc = "example_doc ''<span></span>'' 10" and e = example_event,
        THEN conjunct2, rule_format, OF conjI [OF h(1) conjI [OF h(2) conjI [OF refl
          conjI [OF n conjI [OF h(5) conjI [OF h(6) conjI [OF h(7) h(8)]]]]]]]] h
    by simp
qed

text \<open>
  C5. A notification has no effect when the session is inactive, when its document is
  not resolved, or when the event is for another document. On an active, bound session
  and an event for its document, the session is detached when the document's line count
  is not the recorded one, and also when the counter is not exactly one past the
  recorded counter while the bound line holds exactly the rendered text.
\<close>

theorem onDocumentChange_guards:
  "(\<not> activted s \<or> document w s = None \<or> uri s \<noteq> Some (textDocument_uri e) \<longrightarrow>
      onDocumentChange E w e s = (Inr (), s)) \<and>
   (activted s \<and> consistent s \<and> document w s = Some doc \<and> uri s = Some (textDocument_uri e) \<and>
    lineCount s \<noteq> Some (doc_lineCount doc) \<longrightarrow>
      onDocumentChange E w e s = detach E w s \<and>
      \<not> activted (snd (onDocumentChange E w e s))) \<and>
   (activted s \<and> snippet s = Some sn \<and> document w s = Some doc \<and>
    uri s = Some (textDocument_uri e) \<and> changedtick s \<noteq> Some (doc_changedtick doc - 1) \<and>
    doc_getline doc (startLnum s) = toString E sn \<longrightarrow>
      onDocumentChange E w e s = detach E w s \<and>
      \<not> activted (snd (onDocumentChange E w e s)))"
proof (intro conjI impI)
  assume "\<not> activted s \<or> document w s = None \<or> uri s \<noteq> Some (textDocument_uri e)"
  then show "onDocumentChange E w e s = (Inr (), s)"
    by (auto simp: onDocumentChange_def split: option.splits)
next
  assume a: "activted s \<and> consistent s \<and> document w s = Some doc \<and>
    uri s = Some (textDocument_uri e) \<and> lineCount s \<noteq> Some (doc_lineCount doc)"
  then show d: "onDocumentChange E w e s = detach E w s"
    by (auto simp: onDocumentChange_def catch_detach)
  show "\<not> activted (snd (onDocumentChange E w e s))"
    by (simp add: d detach_not_activted)
next
  assume a: "activted s \<and> snippet s = Some sn \<and> document w s = Some doc \<and>
    uri s = Some (textDocument_uri e) \<and> changedtick s \<noteq> Some (doc_changedtick doc - 1) \<and>
    doc_getline doc (startLnum s) = toString E sn"
  then have "consistent s"
    by (simp add: consistent_def)
  with a show d: "onDocumentChange E w e s = detach E w s"
    by (auto simp: onDocumentChange_def catch_detach Let_def own_tick_iff)
  show "\<not> activted (snd (onDocumentChange E w e s))"
    by (simp add: d detach_not_activted)
qed

text \<open>
  The initial session ignores a notification. The scenario's session is detached when
  the document has eleven lines instead of ten, and when the document reports counter 9
  (two past the recorded 7) while line 3 still holds the rendered text.
\<close>

theorem onDocumentChange_guards_witness:
  "onDocumentChange example_env (example_world (example_doc [] 8)) example_event init_state
     = (Inr (), init_state) \<and>
   activted example_active \<and> consistent example_active \<and>
   lineCount example_active
     \<noteq> Some (doc_lineCount ((example_doc ''foo(bar, baz)'' 9)\<lparr>doc_lineCount := 11\<rparr>)) \<and>
   \<not> activted (snd (onDocumentChange example_env
     (example_world ((example_doc ''foo(bar, baz)'' 9)\<lparr>doc_lineCount := 11\<rparr>))
     example_event example_active)) \<and>
   changedtick example_active
     \<noteq> Some (doc_changedtick (example_doc ''foo(bar, baz)'' 9) - 1) \<and>
   doc_getline (example_doc ''foo(bar, baz)'' 9) (startLnum example_active)
     = toString example_env example_snip \<and>
   \<not> activted (snd (onDocumentChange example_env
     (example_world (example_doc ''foo(bar, baz)'' 9)) example_event example_active))"
proof -
  let ?d = "(example_doc ''foo(bar, baz)'' 9)\<lparr>doc_lineCount := 11\<rparr>"
  let ?c = "example_doc ''foo(bar, baz)'' 9"
  have i: "\<not> activted init_state \<or> document (example_world (example_doc [] 8)) init_state = None
      \<or> uri init_state \<noteq> Some (textDocument_uri example_event)"
    by (simp add: init_state_def initial_def)
  have a: "activted example_active" "consistent example_active"
    "snippet example_active = Some example_snip"
    "uri example_active = Some (textDocument_uri example_event)"
    by (simp_all add: example_active_def example_event_def consistent_def)
  have d: "document (example_world ?d) example_active = Some ?d"
    "lineCount example_active \<noteq> Some (doc_lineCount ?d)"
    by (simp_all add: document_def example_defs)
  have c: "document (example_world ?c) example_active = Some ?c"
    "changedtick example_active \<noteq> Some (doc_changedtick ?c - 1)"
    "doc_getline ?c (startLnum example_active) = toString example_env example_snip"
    by (simp_all add: document_def example_defs)
  show ?thesis
    using a(1,2) d(2) c(2,3)
      onDocumentChange_guards [where s = init_state and E = example_env
        and w = "example_world (example_doc [] 8)" and e = example_event,
        THEN conjunct1, rule_format, OF i]
      onDocumentChange_guards [where s = example_active and E = example_env
        and w = "example_world ?d" and e = example_event and doc = ?d,
        THEN conjunct2, THEN conjunct1, rule_format,
        OF conjI [OF a(1) conjI [OF a(2) conjI [OF d(1) conjI [OF a(4) d(2)]]]]]
      onDocumentChange_guards [where s = example_active and E = example_env
        and w = "example_world ?c" and e = example_event and doc = ?c and sn = example_snip,
        THEN conjunct2, THEN conjunct2, rule_format,
        OF conjI [OF a(1) conjI [OF a(3) conjI [OF c(1) conjI [OF a(4) conjI [OF c(2) c(3)]]]]]]
    by blast
qed

text \<open>
  C9 as stated fails: after an edit of \<open>bar\<close> that needs no write, the counter 9 is
  recorded; a change that adds a line to the document advances the counter to 10, and
  \<open>onDocumentChange\<close> does not ignore it but detaches the session, since the line count is
  checked before the counters are compared.
\<close>

theorem onLineChange_counter_counterexample:
  "trace (snd (onLineChange example_env (example_world (example_doc ''foo(qux, baz)'' 9))
     ''foo(qux, baz)'' example_active)) = trace example_active \<and>
   changedtick (snd (onLineChange example_env (example_world (example_doc ''foo(qux, baz)'' 9))
     ''foo(qux, baz)'' example_active)) = Some 9 \<and>
   doc_changedtick ((example_doc ''foo(qux, baz)'' 10)\<lparr>doc_lineCount := 11\<rparr>) = 9 + 1 \<and>
   onDocumentChange example_env
     (example_world ((example_doc ''foo(qux, baz)'' 10)\<lparr>doc_lineCount := 11\<rparr>)) example_event
     (snd (onLineChange example_env (example_world (example_doc ''foo(qux, baz)'' 9))
        ''foo(qux, baz)'' example_active))
   \<noteq> (Inr (), snd (onLineChange example_env (example_world (example_doc ''foo(qux, baz)'' 9))
        ''foo(qux, baz)'' example_active)) \<and>
   \<not> activted (snd (onDocumentChange example_env
     (example_world ((example_doc ''foo(qux, baz)'' 10)\<lparr>doc_lineCount := 11\<rparr>)) example_event
     (snd (onLineChange example_env (example_world (example_doc ''foo(qux, baz)'' 9))
        ''foo(qux, baz)'' example_active))))"
proof -
  let ?s = "snd (onLineChange example_env (example_world (example_doc ''foo(qux, baz)'' 9))
     ''foo(qux, baz)'' example_active)"
  let ?d = "(example_doc ''foo(qux, baz)'' 10)\<lparr>doc_lineCount := 11\<rparr>"
  have s: "?s = example_active\<lparr>
      snippet := Some [Text ''foo('', Placeholder 1 ''qux'' None, Text '', '',
                       Placeholder 2 ''baz'' None, Text '')'', Placeholder 0 [] None],
      changedtick := Some 9\<rparr>"
    by (simp add: example_defs onLineChange_def document_def call_def Let_def)
  have a: "activted ?s" "consistent ?s" "document (example_world ?d) ?s = Some ?d"
    "uri ?s = Some (textDocument_uri example_event)" "lineCount ?s \<noteq> Some (doc_lineCount ?d)"
    unfolding s by (simp_all add: example_defs document_def consistent_def)
  have o: "onDocumentChange example_env (example_world ?d) example_event ?s
      = detach example_env (example_world ?d) ?s"
    using a by (simp add: onDocumentChange_def catch_detach)
  have n: "\<not> activted (snd (onDocumentChange example_env (example_world ?d) example_event ?s))"
    by (simp add: o detach_not_activted)
  have "onDocumentChange example_env (example_world ?d) example_event ?s \<noteq> (Inr (), ?s)"
    using n a(1) by auto
  moreover have "trace ?s = trace example_active" "changedtick ?s = Some 9"
    "doc_changedtick ?d = 9 + 1"
    unfolding s by (simp_all add: example_defs)
  ultimately show ?thesis
    using n by blast
qed

text \<open>
  C9, amended. When \<open>onLineChange\<close> finds a placeholder with an index other than 0, the
  recorded counter is set to the document's counter also when the rendered text is the
  new content and nothing is written. The next change of the document that advances
  the counter by exactly one and leaves the line count as recorded is then ignored by
  \<open>onDocumentChange\<close>, whatever it changed on the line.
\<close>

theorem onLineChange_records_counter:
  assumes "document w s = Some doc" and "snippet s = Some sn"
    and "getChangeItem E (toString E sn) content = Some chg"
    and "findPlaceholder E sn chg (ch_offset chg) = (Some p, start)"
    and "index E p \<noteq> 0"
    and "document w' (snd (onLineChange E w content s)) = Some doc'"
    and "doc_changedtick doc' = doc_changedtick doc + 1"
    and "lineCount s = Some (doc_lineCount doc')"
  shows "changedtick (snd (onLineChange E w content s)) = Some (doc_changedtick doc) \<and>
    (toString E (replaceWith E sn p (getNewText E sn chg p start)) = content \<longrightarrow>
       trace (snd (onLineChange E w content s)) = trace s) \<and>
    onDocumentChange E w' e (snd (onLineChange E w content s))
      = (Inr (), snd (onLineChange E w content s))"
proof -
  note r = onLineChange_inside [OF assms(1-5)]
  have c: "changedtick (snd (onLineChange E w content s)) = Some (doc_changedtick doc)"
    and n: "snippet (snd (onLineChange E w content s)) \<noteq> None"
    by (simp_all add: r Let_def call_def)
  have t: "toString E (replaceWith E sn p (getNewText E sn chg p start)) = content \<longrightarrow>
       trace (snd (onLineChange E w content s)) = trace s"
    by (simp add: r Let_def)
  have l: "lineCount (snd (onLineChange E w content s)) = Some (doc_lineCount doc')"
    using assms(8) by (simp add: onLineChange_fields)
  have d: "changedtick (snd (onLineChange E w content s)) = Some (doc_changedtick doc' - 1)"
    using assms(7) c by simp
  show ?thesis
    using c t onDocumentChange_delta_one [OF n assms(6) l d] by simp
qed

text \<open>
  After the edit of \<open>bar\<close> to \<open>qux\<close> (nothing written, counter 9 recorded) the user types
  one more character; the document reports counter 10 and the notification is ignored:
  the model still renders \<open>qux\<close>.
\<close>

theorem onLineChange_records_counter_witness:
  "trace (snd (onLineChange example_env (example_world (example_doc ''foo(qux, baz)'' 9))
     ''foo(qux, baz)'' example_active)) = trace example_active \<and>
   changedtick (snd (onLineChange example_env (example_world (example_doc ''foo(qux, baz)'' 9))
     ''foo(qux, baz)'' example_active)) = Some 9 \<and>
   onDocumentChange example_env (example_world (example_doc ''foo(quxx, baz)'' 10)) example_event
     (snd (onLineChange example_env (example_world (example_doc ''foo(qux, baz)'' 9))
        ''foo(qux, baz)'' example_active))
   = (Inr (), example_active\<lparr>
      snippet := Some [Text ''foo('', Placeholder 1 ''qux'' None, Text '', '',
                       Placeholder 2 ''baz'' None, Text '')'', Placeholder 0 [] None],
      changedtick := Some 9\<rparr>)"
proof -
  let ?v = "example_world (example_doc ''foo(qux, baz)'' 9)"
  let ?s = "snd (onLineChange example_env ?v ''foo(qux, baz)'' example_active)"
  let ?c = "\<lparr>ch_offset = 4, ch_removed = 3, ch_inserted = ''qux''\<rparr>"
  have s: "?s = example_active\<lparr>
      snippet := Some [Text ''foo('', Placeholder 1 ''qux'' None, Text '', '',
                       Placeholder 2 ''baz'' None, Text '')'', Placeholder 0 [] None],
      changedtick := Some 9\<rparr>"
    by (simp add: example_defs onLineChange_def document_def call_def Let_def)
  have h: "document ?v example_active = Some (example_doc ''foo(qux, baz)'' 9)"
    "snippet example_active = Some example_snip"
    "getChangeItem example_env (toString example_env example_snip) ''foo(qux, baz)'' = Some ?c"
    "findPlaceholder example_env example_snip ?c (ch_offset ?c) = (Some (1, 1), 4)"
    "index example_env (1, 1) \<noteq> 0"
    by (simp_all add: document_def example_defs)
  have k: "document (example_world (example_doc ''foo(quxx, baz)'' 10)) ?s
      = Some (example_doc ''foo(quxx, baz)'' 10)"
    "doc_changedtick (example_doc ''foo(quxx, baz)'' 10)
      = doc_changedtick (example_doc ''foo(qux, baz)'' 9) + 1"
    "lineCount example_active = Some (doc_lineCount (example_doc ''foo(quxx, baz)'' 10))"
    unfolding s by (simp_all add: document_def example_defs)
  have v: "toString example_env (replaceWith example_env example_snip (1, 1)
      (getNewText example_env example_snip ?c (1, 1) 4)) = ''foo(qux, baz)''"
    by (simp add: example_defs)
  have t: "doc_changedtick (example_doc ''foo(qux, baz)'' 9) = 9"
    by (simp add: example_doc_def)
  show ?thesis
    using onLineChange_records_counter [OF h k, of example_event] v
    unfolding s [symmetric] t by blast
qed

subsection \<open>Claims on insertSnippet\<close>

lemma insertSnippet_after_detach:
  assumes "consistent s"
  shows "insertSnippet E w doc line newLine s =
     (let s1 = (snd (detach E w s))\<lparr>uri := Some (doc_uri doc)\<rparr> in
      case parse E newLine of
        None \<Rightarrow> (Inr (), onError ParseError s1)
      | Some sn \<Rightarrow>
          catch_onError (call w (Buf_setLines (doc_uri doc) (toString E sn) (Some line))
            (s1\<lparr>snippet := Some sn, changedtick := Some (doc_changedtick doc)\<rparr>)))"
proof (cases "activted s")
  case True
  then show ?thesis
    using detach_fulfils [OF assms, of E w]
    by (simp add: insertSnippet_def Let_def split: option.splits)
next
  case False
  then show ?thesis
    by (simp add: insertSnippet_def detach_inactive Let_def split: option.splits)
qed

lemma catch_call:
  "catch_onError (call w c s) =
     (Inr (), s\<lparr>trace := trace s @ (if rejects w c then [c, Log_error HostError] else [c])\<rparr>)"
  by (simp add: catch_onError_def call_def onError_def)

text \<open>
  C6. \<open>insertSnippet\<close> detaches an active session first: it does what it does on the
  detached session. When the template does not parse, or the write is rejected, the
  call still returns normally, the failure is logged, and the session is not active
  after the call.
\<close>

theorem insertSnippet_never_rejects:
  assumes "consistent s"
  shows "fst (insertSnippet E w doc line newLine s) = Inr () \<and>
    \<not> isActivted (snd (insertSnippet E w doc line newLine s)) \<and>
    insertSnippet E w doc line newLine s
      = insertSnippet E w doc line newLine (snd (detach E w s)) \<and>
    (parse E newLine = None \<longrightarrow>
       trace (snd (insertSnippet E w doc line newLine s))
         = trace (snd (detach E w s)) @ [Log_error ParseError]) \<and>
    (\<forall>sn. parse E newLine = Some sn \<and>
          rejects w (Buf_setLines (doc_uri doc) (toString E sn) (Some line)) \<longrightarrow>
       trace (snd (insertSnippet E w doc line newLine s))
         = trace (snd (detach E w s)) @
           [Buf_setLines (doc_uri doc) (toString E sn) (Some line), Log_error HostError])"
proof -
  note r = insertSnippet_after_detach [OF assms, of E w doc line newLine]
  have d: "detach E w (snd (detach E w s)) = (Inr (), snd (detach E w s))"
    by (simp add: detach_inactive detach_not_activted)
  have "fst (insertSnippet E w doc line newLine s) = Inr ()"
    by (simp add: r Let_def catch_call split: option.splits)
  moreover have "\<not> isActivted (snd (insertSnippet E w doc line newLine s))"
    by (simp add: r Let_def catch_call onError_def isActivted_def detach_not_activted
        split: option.splits)
  moreover have "insertSnippet E w doc line newLine s
      = insertSnippet E w doc line newLine (snd (detach E w s))"
    by (simp add: r insertSnippet_after_detach [OF detach_consistent] d)
  moreover have "parse E newLine = None \<longrightarrow>
       trace (snd (insertSnippet E w doc line newLine s))
         = trace (snd (detach E w s)) @ [Log_error ParseError]"
    by (simp add: r Let_def onError_def)
  moreover have "\<forall>sn. parse E newLine = Some sn \<and>
          rejects w (Buf_setLines (doc_uri doc) (toString E sn) (Some line)) \<longrightarrow>
       trace (snd (insertSnippet E w doc line newLine s))
         = trace (snd (detach E w s)) @
           [Buf_setLines (doc_uri doc) (toString E sn) (Some line), Log_error HostError]"
    by (simp add: r Let_def catch_call)
  ultimately show ?thesis by blast
qed

text \<open>
  A template that the parser refuses, inserted over the scenario's active session; and
  the scenario's template inserted from the initial state through a host that rejects
  the write.
\<close>

theorem insertSnippet_never_rejects_witness:
  "consistent example_active \<and> consistent init_state \<and>
   parse example_env ''${1'' = None \<and>
   insertSnippet example_env (example_world (example_doc [] 9)) (example_doc [] 9) 5 ''${1''
     example_active =
   (Inr (), example_active\<lparr>snippet := None, activted := False,
      trace := trace example_active @ [Call_disable, Log_error ParseError]\<rparr>) \<and>
   insertSnippet example_env
     ((example_world (example_doc [] 7))\<lparr>rejects := is_write\<rparr>) (example_doc [] 7) 12
     example_template init_state =
   (Inr (), init_state\<lparr>snippet := Some example_snip, uri := Some ''file:///a.ts'',
      changedtick := Some 7,
      trace := [Buf_setLines ''file:///a.ts'' ''foo(bar, baz)'' (Some 12), Log_error HostError]\<rparr>)"
proof -
  have a: "consistent example_active" and b: "consistent init_state"
    by (simp_all add: consistent_def example_active_def init_state_def initial_def)
  have p: "parse example_env ''${1'' = None"
    by (simp add: example_defs)
  have d: "detach example_env (example_world (example_doc [] 9)) example_active =
      (Inr (), example_active\<lparr>activted := False, uri := Some [], snippet := None,
         trace := trace example_active @ [Call_disable]\<rparr>)"
    by (simp add: detach_def catch_call example_defs)
  have e: "insertSnippet example_env (example_world (example_doc [] 9)) (example_doc [] 9) 5
      ''${1'' (snd (detach example_env (example_world (example_doc [] 9)) example_active)) =
    (Inr (), example_active\<lparr>snippet := None, activted := False,
      trace := trace example_active @ [Call_disable, Log_error ParseError]\<rparr>)"
    unfolding d by (simp add: insertSnippet_def onError_def example_defs)
  have f: "insertSnippet example_env
     ((example_world (example_doc [] 7))\<lparr>rejects := is_write\<rparr>) (example_doc [] 7) 12
     example_template init_state =
   (Inr (), init_state\<lparr>snippet := Some example_snip, uri := Some ''file:///a.ts'',
      changedtick := Some 7,
      trace := [Buf_setLines ''file:///a.ts'' ''foo(bar, baz)'' (Some 12), Log_error HostError]\<rparr>)"
    by (simp add: insertSnippet_def catch_call example_defs)
  show ?thesis
    using a b p f
      insertSnippet_never_rejects [OF a, of example_env "example_world (example_doc [] 9)"
        "example_doc [] 9" 5 "''${1''"]
      insertSnippet_never_rejects [OF b, of example_env
        "(example_world (example_doc [] 7))\<lparr>rejects := is_write\<rparr>" "example_doc [] 7" 12
        example_template]
    unfolding e by blast
qed

text \<open>
  C10 as stated fails in its last part: when the session is active over a template
  with placeholders, the \<open>detach\<close> that \<open>insertSnippet\<close> starts with sets the model to
  \<open>null\<close>, so after a template that does not parse the model is not the previous one.
\<close>

theorem insertSnippet_model_counterexample:
  "parse example_env ''${1'' = None \<and>
   snippet example_active = Some example_snip \<and>
   snippet (snd (insertSnippet example_env (example_world (example_doc [] 9))
     (example_doc [] 9) 5 ''${1'' example_active)) = None \<and>
   snippet (snd (insertSnippet example_env (example_world (example_doc [] 9))
     (example_doc [] 9) 5 ''${1'' example_active)) \<noteq> snippet example_active"
  by (simp add: insertSnippet_def detach_def catch_call onError_def example_defs)

text \<open>
  C10, amended. Whatever happens later in the call, \<open>insertSnippet\<close> has set the URI
  of the session to the URI of the given document, and the session is inactive after
  the call; so the \<open>document\<close> getter then gives what the workspace holds under that URI,
  the given document when the workspace holds it. When the template does not parse,
  the model is as the initial \<open>detach\<close> left it: the previous one when the session was
  inactive or its template had no placeholder, \<open>null\<close> when the session was active over
  a template with placeholders.
\<close>

theorem insertSnippet_binds_before_failure:
  assumes "consistent s"
  shows "uri (snd (insertSnippet E w doc line newLine s)) = Some (doc_uri doc) \<and>
    \<not> activted (snd (insertSnippet E w doc line newLine s)) \<and>
    document w (snd (insertSnippet E w doc line newLine s)) = getDocument w (Some (doc_uri doc)) \<and>
    (getDocument w (Some (doc_uri doc)) = Some doc \<longrightarrow>
       document w (snd (insertSnippet E w doc line newLine s)) = Some doc) \<and>
    (parse E newLine = None \<longrightarrow>
       snippet (snd (insertSnippet E w doc line newLine s)) = snippet (snd (detach E w s))) \<and>
    (parse E newLine = None \<and> \<not> activted s \<longrightarrow>
       snippet (snd (insertSnippet E w doc line newLine s)) = snippet s) \<and>
    (\<forall>sn. parse E newLine = None \<and> activted s \<and> snippet s = Some sn \<and>
          \<not> hasPlaceholder E sn \<longrightarrow>
       snippet (snd (insertSnippet E w doc line newLine s)) = Some sn) \<and>
    (\<forall>sn. parse E newLine = None \<and> activted s \<and> snippet s = Some sn \<and>
          hasPlaceholder E sn \<longrightarrow>
       snippet (snd (insertSnippet E w doc line newLine s)) = None)"
proof -
  note r = insertSnippet_after_detach [OF assms, of E w doc line newLine]
  have u: "uri (snd (insertSnippet E w doc line newLine s)) = Some (doc_uri doc)"
    by (simp add: r Let_def catch_call onError_def split: option.splits)
  have a: "\<not> activted (snd (insertSnippet E w doc line newLine s))"
    by (simp add: r Let_def catch_call onError_def detach_not_activted split: option.splits)
  have p: "parse E newLine = None \<longrightarrow>
       snippet (snd (insertSnippet E w doc line newLine s)) = snippet (snd (detach E w s))"
    by (simp add: r Let_def onError_def)
  have q: "parse E newLine = None \<and> \<not> activted s \<longrightarrow>
       snippet (snd (insertSnippet E w doc line newLine s)) = snippet s"
    using p by (simp add: detach_inactive)
  have n: "\<forall>sn. parse E newLine = None \<and> activted s \<and> snippet s = Some sn \<and>
          \<not> hasPlaceholder E sn \<longrightarrow>
       snippet (snd (insertSnippet E w doc line newLine s)) = Some sn"
    using p by (simp add: detach_def)
  have h: "\<forall>sn. parse E newLine = None \<and> activted s \<and> snippet s = Some sn \<and>
          hasPlaceholder E sn \<longrightarrow>
       snippet (snd (insertSnippet E w doc line newLine s)) = None"
    using p by (simp add: detach_def catch_call)
  show ?thesis
    using u a p q n h by (simp add: document_def)
qed

text \<open>
  The refused template inserted over the scenario's active session (the model becomes
  \<open>null\<close>) and over the initial session (the model stays \<open>null\<close>), for a document that the
  workspace holds.
\<close>

theorem insertSnippet_binds_before_failure_witness:
  "consistent example_active \<and> consistent init_state \<and>
   parse example_env ''${1'' = None \<and>
   getDocument (example_world (example_doc [] 9)) (Some (doc_uri (example_doc [] 9)))
     = Some (example_doc [] 9) \<and>
   activted example_active \<and> snippet example_active = Some example_snip \<and>
   hasPlaceholder example_env example_snip \<and>
   uri (snd (insertSnippet example_env (example_world (example_doc [] 9))
     (example_doc [] 9) 5 ''${1'' example_active)) = Some ''file:///a.ts'' \<and>
   document (example_world (example_doc [] 9))
     (snd (insertSnippet example_env (example_world (example_doc [] 9))
        (example_doc [] 9) 5 ''${1'' example_active)) = Some (example_doc [] 9) \<and>
   snippet (snd (insertSnippet example_env (example_world (example_doc [] 9))
     (example_doc [] 9) 5 ''${1'' example_active)) = None \<and>
   \<not> activted init_state \<and>
   snippet (snd (insertSnippet example_env (example_world (example_doc [] 9))
     (example_doc [] 9) 5 ''${1'' init_state)) = snippet init_state"
proof -
  have a: "consistent example_active" and b: "consistent init_state"
    by (simp_all add: consistent_def example_active_def init_state_def initial_def)
  have h: "parse example_env ''${1'' = None"
    "getDocument (example_world (example_doc [] 9)) (Some (doc_uri (example_doc [] 9)))
       = Some (example_doc [] 9)"
    "activted example_active" "snippet example_active = Some example_snip"
    "hasPlaceholder example_env example_snip" "\<not> activted init_state"
    "doc_uri (example_doc [] 9) = ''file:///a.ts''"
    by (simp_all add: example_defs)
  show ?thesis
    using a b h(1-6)
      insertSnippet_binds_before_failure [OF a, of example_env
        "example_world (example_doc [] 9)" "example_doc [] 9" 5 "''${1''"]
      insertSnippet_binds_before_failure [OF b, of example_env
        "example_world (example_doc [] 9)" "example_doc [] 9" 5 "''${1''"]
    unfolding h(7) by blast
qed

subsection \<open>Claims on jumpNext and jumpPrev\<close>

lemma checkPosition_off:
  assumes "line_dot w = Some lnum" and "Some (lnum - 1) \<noteq> startLnum s" and "consistent s"
  shows "checkPosition E w s = (Inr False, snd (detach E w s))"
  using assms detach_fulfils [OF assms(3), of E w] by (simp add: checkPosition_def Let_def)

lemma checkPosition_on:
  assumes "line_dot w = Some lnum" and "startLnum s = Some (lnum - 1)"
  shows "checkPosition E w s = (Inr True, s)"
  using assms by (simp add: checkPosition_def)

lemma jumpNext_off:
  assumes "snippet s = Some sn" and "line_dot w = Some lnum" and "Some (lnum - 1) \<noteq> startLnum s"
  shows "jumpNext E w s = (Inr (), snd (detach E w s))"
proof -
  have "consistent s"
    using assms(1) by (simp add: consistent_def)
  then show ?thesis
    using assms(1) by (simp add: jumpNext_def checkPosition_off [OF assms(2,3)] Let_def)
qed

lemma jumpPrev_off:
  assumes "snippet s = Some sn" and "line_dot w = Some lnum" and "Some (lnum - 1) \<noteq> startLnum s"
  shows "jumpPrev E w s = (Inr (), snd (detach E w s))"
proof -
  have "consistent s"
    using assms(1) by (simp add: consistent_def)
  then show ?thesis
    using assms(1) by (simp add: jumpPrev_def checkPosition_off [OF assms(2,3)] Let_def)
qed

lemma jumpNext_on:
  assumes "snippet s = Some sn" and "line_dot w = Some lnum"
    and "startLnum s = Some (lnum - 1)"
  shows "jumpNext E w s =
     (let idx = (if currIndex s = maxIndex E sn then 0 else currIndex s + 1) in
      case find (\<lambda>p. index E p = idx) (placeholders E sn) of
        None \<Rightarrow> (Inr (), s\<lparr>currIndex := idx\<rparr>)
      | Some marker \<Rightarrow> jumpTo E w marker (s\<lparr>currIndex := idx\<rparr>))"
  using assms(1) by (simp add: jumpNext_def checkPosition_on [OF assms(2,3)] Let_def)

lemma jumpPrev_on:
  assumes "snippet s = Some sn" and "line_dot w = Some lnum"
    and "startLnum s = Some (lnum - 1)"
  shows "jumpPrev E w s =
     (let idx = (if currIndex s = 0 then maxIndex E sn else currIndex s - 1) in
      case find (\<lambda>p. index E p = idx) (placeholders E sn) of
        None \<Rightarrow> (Inr (), s\<lparr>currIndex := idx\<rparr>)
      | Some marker \<Rightarrow> jumpTo E w marker (s\<lparr>currIndex := idx\<rparr>))"
  using assms(1) by (simp add: jumpPrev_def checkPosition_on [OF assms(2,3)] Let_def)

text \<open>
  C7. With a template model in place and a line number \<open>lnum\<close> answered by the host:
  when \<open>lnum - 1\<close> is not \<open>startLnum\<close> (also when \<open>startLnum\<close> is \<open>undefined\<close>, the session
  never attached), \<open>jumpNext\<close> and \<open>jumpPrev\<close> do what \<open>detach\<close> does and nothing more, so
  the focused index is unchanged, the session is inactive and no jump call is issued.
  When \<open>startLnum\<close> is \<open>lnum - 1\<close> and no placeholder has the target index, the focused
  index is set to the target and nothing else changes: no call is issued.
\<close>

theorem jump_guards:
  assumes "snippet s = Some sn" and "line_dot w = Some lnum"
  shows "(Some (lnum - 1) \<noteq> startLnum s \<longrightarrow>
       jumpNext E w s = (Inr (), snd (detach E w s)) \<and>
       jumpPrev E w s = (Inr (), snd (detach E w s)) \<and>
       currIndex (snd (detach E w s)) = currIndex s \<and>
       \<not> activted (snd (detach E w s)) \<and>
       jumps (trace (snd (detach E w s))) = jumps (trace s)) \<and>
    (startLnum s = Some (lnum - 1) \<and>
     find (\<lambda>p. index E p = (if currIndex s = maxIndex E sn then 0 else currIndex s + 1))
       (placeholders E sn) = None \<longrightarrow>
       jumpNext E w s =
         (Inr (), s\<lparr>currIndex := (if currIndex s = maxIndex E sn then 0 else currIndex s + 1)\<rparr>)) \<and>
    (startLnum s = Some (lnum - 1) \<and>
     find (\<lambda>p. index E p = (if currIndex s = 0 then maxIndex E sn else currIndex s - 1))
       (placeholders E sn) = None \<longrightarrow>
       jumpPrev E w s =
         (Inr (), s\<lparr>currIndex := (if currIndex s = 0 then maxIndex E sn else currIndex s - 1)\<rparr>))"
proof (intro conjI impI)
  assume n: "Some (lnum - 1) \<noteq> startLnum s"
  show "jumpNext E w s = (Inr (), snd (detach E w s))"
    by (rule jumpNext_off [OF assms n])
  show "jumpPrev E w s = (Inr (), snd (detach E w s))"
    by (rule jumpPrev_off [OF assms n])
  show "currIndex (snd (detach E w s)) = currIndex s"
    by (rule detach_fields)
  show "\<not> activted (snd (detach E w s))"
    by (rule detach_not_activted)
  show "jumps (trace (snd (detach E w s))) = jumps (trace s)"
    by (rule detach_jumps)
next
  assume a: "startLnum s = Some (lnum - 1) \<and>
     find (\<lambda>p. index E p = (if currIndex s = maxIndex E sn then 0 else currIndex s + 1))
       (placeholders E sn) = None"
  then have l: "startLnum s = Some (lnum - 1)"
    by simp
  from a show "jumpNext E w s =
      (Inr (), s\<lparr>currIndex := (if currIndex s = maxIndex E sn then 0 else currIndex s + 1)\<rparr>)"
    using jumpNext_on [OF assms l, of E] by (simp add: Let_def)
next
  assume a: "startLnum s = Some (lnum - 1) \<and>
     find (\<lambda>p. index E p = (if currIndex s = 0 then maxIndex E sn else currIndex s - 1))
       (placeholders E sn) = None"
  then have l: "startLnum s = Some (lnum - 1)"
    by simp
  from a show "jumpPrev E w s =
      (Inr (), s\<lparr>currIndex := (if currIndex s = 0 then maxIndex E sn else currIndex s - 1)\<rparr>)"
    using jumpPrev_on [OF assms l, of E] by (simp add: Let_def)
qed

text \<open>
  The scenario's session with the cursor on line 7: both calls detach it and leave the
  focused index at 1. The session after \<open>insertSnippet\<close> alone, never attached, with the
  cursor on line 1: \<open>startLnum\<close> is \<open>undefined\<close>, both calls return with the session as it
  was, the focused index still \<open>-1\<close>. A session over \<open>foo(bar)\<close> with one placeholder of
  index 1 and none of index 0, the cursor on the bound line: the target after 1 is 0,
  before 1 is 0 too; the focused index becomes 0 and the trace stays as it is.
\<close>

theorem jump_guards_witness:
  "snippet example_active = Some example_snip \<and>
   line_dot ((example_world (example_doc ''foo(bar, baz)'' 8))\<lparr>line_dot := Some 7\<rparr>) = Some 7 \<and>
   Some (7 - 1) \<noteq> startLnum example_active \<and>
   jumpNext example_env ((example_world (example_doc ''foo(bar, baz)'' 8))\<lparr>line_dot := Some 7\<rparr>)
     example_active =
   (Inr (), example_active\<lparr>snippet := None, activted := False, uri := Some [],
      trace := trace example_active @ [Call_disable]\<rparr>) \<and>
   jumpPrev example_env ((example_world (example_doc ''foo(bar, baz)'' 8))\<lparr>line_dot := Some 7\<rparr>)
     example_active =
   (Inr (), example_active\<lparr>snippet := None, activted := False, uri := Some [],
      trace := trace example_active @ [Call_disable]\<rparr>) \<and>
   snd (insertSnippet example_env (example_world (example_doc [] 7)) (example_doc [] 7) 0
     example_template init_state) =
     init_state\<lparr>snippet := Some example_snip, uri := Some ''file:///a.ts'',
       changedtick := Some 7,
       trace := [Buf_setLines ''file:///a.ts'' ''foo(bar, baz)'' (Some 0)]\<rparr> \<and>
   jumpNext example_env ((example_world (example_doc ''foo(bar, baz)'' 8))\<lparr>line_dot := Some 1\<rparr>)
     (init_state\<lparr>snippet := Some example_snip, uri := Some ''file:///a.ts'',
       changedtick := Some 7,
       trace := [Buf_setLines ''file:///a.ts'' ''foo(bar, baz)'' (Some 0)]\<rparr>) =
   (Inr (), init_state\<lparr>snippet := Some example_snip, uri := Some ''file:///a.ts'',
       changedtick := Some 7,
       trace := [Buf_setLines ''file:///a.ts'' ''foo(bar, baz)'' (Some 0)]\<rparr>) \<and>
   jumpPrev example_env ((example_world (example_doc ''foo(bar, baz)'' 8))\<lparr>line_dot := Some 1\<rparr>)
     (init_state\<lparr>snippet := Some example_snip, uri := Some ''file:///a.ts'',
       changedtick := Some 7,
       trace := [Buf_setLines ''file:///a.ts'' ''foo(bar, baz)'' (Some 0)]\<rparr>) =
   (Inr (), init_state\<lparr>snippet := Some example_snip, uri := Some ''file:///a.ts'',
       changedtick := Some 7,
       trace := [Buf_setLines ''file:///a.ts'' ''foo(bar, baz)'' (Some 0)]\<rparr>) \<and>
   find (\<lambda>p. index example_env p = 0)
     (placeholders example_env [Text ''foo('', Placeholder 1 ''bar'' None, Text '')'']) = None \<and>
   jumpNext example_env (example_world (example_doc ''foo(bar)'' 8))
     (example_active\<lparr>snippet := Some [Text ''foo('', Placeholder 1 ''bar'' None, Text '')'']\<rparr>) =
   (Inr (), example_active\<lparr>snippet := Some [Text ''foo('', Placeholder 1 ''bar'' None, Text '')''],
      currIndex := 0\<rparr>) \<and>
   jumpPrev example_env (example_world (example_doc ''foo(bar)'' 8))
     (example_active\<lparr>snippet := Some [Text ''foo('', Placeholder 1 ''bar'' None, Text '')'']\<rparr>) =
   (Inr (), example_active\<lparr>snippet := Some [Text ''foo('', Placeholder 1 ''bar'' None, Text '')''],
      currIndex := 0\<rparr>)"
proof -
  let ?v = "(example_world (example_doc ''foo(bar, baz)'' 8))\<lparr>line_dot := Some 7\<rparr>"
  let ?u = "example_world (example_doc ''foo(bar)'' 8)"
  let ?x = "(example_world (example_doc ''foo(bar, baz)'' 8))\<lparr>line_dot := Some 1\<rparr>"
  let ?n = "[Text ''foo('', Placeholder 1 ''bar'' None, Text '')'']"
  let ?t = "example_active\<lparr>snippet := Some ?n\<rparr>"
  let ?r = "init_state\<lparr>snippet := Some example_snip, uri := Some ''file:///a.ts'',
       changedtick := Some 7,
       trace := [Buf_setLines ''file:///a.ts'' ''foo(bar, baz)'' (Some 0)]\<rparr>"
  have a: "snippet example_active = Some example_snip" and b: "snippet ?t = Some ?n"
    and c: "snippet ?r = Some example_snip"
    by (simp_all add: example_active_def)
  have h: "line_dot ?v = Some 7" "Some (7 - 1) \<noteq> startLnum example_active"
    by (simp_all add: example_defs)
  have d: "snd (detach example_env ?v example_active) =
      example_active\<lparr>snippet := None, activted := False, uri := Some [],
        trace := trace example_active @ [Call_disable]\<rparr>"
    by (simp add: detach_def catch_call example_defs)
  have i: "snd (insertSnippet example_env (example_world (example_doc [] 7)) (example_doc [] 7) 0
      example_template init_state) = ?r"
    by (simp add: insertSnippet_def catch_call example_defs)
  have g: "line_dot ?x = Some 1" "Some (1 - 1) \<noteq> startLnum ?r"
    "snd (detach example_env ?x ?r) = ?r"
    by (simp_all add: detach_def example_defs)
  have k: "line_dot ?u = Some 4" "startLnum ?t = Some (4 - 1)"
    "find (\<lambda>p. index example_env p = (if currIndex ?t = maxIndex example_env ?n then 0
        else currIndex ?t + 1)) (placeholders example_env ?n) = None"
    "find (\<lambda>p. index example_env p = (if currIndex ?t = 0 then maxIndex example_env ?n
        else currIndex ?t - 1)) (placeholders example_env ?n) = None"
    "find (\<lambda>p. index example_env p = 0) (placeholders example_env ?n) = None"
    "(if currIndex ?t = maxIndex example_env ?n then 0 else currIndex ?t + 1) = 0"
    "(if currIndex ?t = 0 then maxIndex example_env ?n else currIndex ?t - 1) = 0"
    by (simp_all add: example_defs)
  note x = jump_guards [OF a h(1), of example_env, THEN conjunct1, rule_format, OF h(2)]
  note q = jump_guards [OF c g(1), of example_env, THEN conjunct1, rule_format, OF g(2)]
  note y = jump_guards [OF b k(1), of example_env, THEN conjunct2, THEN conjunct1, rule_format,
      OF conjI [OF k(2) k(3)]]
  note z = jump_guards [OF b k(1), of example_env, THEN conjunct2, THEN conjunct2, rule_format,
      OF conjI [OF k(2) k(4)]]
  show ?thesis
    using a h i k(5) x [unfolded d] q [unfolded g(3)] y [unfolded k(6)] z [unfolded k(7)]
    by blast
qed

lemma find_index: "find (\<lambda>p. index E p = i) ps = Some marker \<Longrightarrow> index E marker = i"
  by (induction ps) (auto split: if_splits)

lemma jumpNext_currIndex:
  assumes "snippet s = Some sn" and "line_dot w = Some lnum"
    and "startLnum s = Some (lnum - 1)"
  shows "currIndex (snd (jumpNext E w s))
    = (if currIndex s = maxIndex E sn then 0 else currIndex s + 1)"
proof -
  let ?i = "if currIndex s = maxIndex E sn then 0 else currIndex s + 1"
  show ?thesis
  proof (cases "find (\<lambda>p. index E p = ?i) (placeholders E sn)")
    case None
    then show ?thesis
      by (simp add: jumpNext_on [OF assms] Let_def)
  next
    case (Some marker)
    then have "index E marker = ?i"
      by (rule find_index)
    then show ?thesis
      using jumpTo_currIndex [of E w marker "s\<lparr>currIndex := ?i\<rparr>"] Some
      by (auto simp: jumpNext_on [OF assms] Let_def)
  qed
qed

lemma jumpPrev_currIndex:
  assumes "snippet s = Some sn" and "line_dot w = Some lnum"
    and "startLnum s = Some (lnum - 1)"
  shows "currIndex (snd (jumpPrev E w s))
    = (if currIndex s = 0 then maxIndex E sn else currIndex s - 1)"
proof -
  let ?i = "if currIndex s = 0 then maxIndex E sn else currIndex s - 1"
  show ?thesis
  proof (cases "find (\<lambda>p. index E p = ?i) (placeholders E sn)")
    case None
    then show ?thesis
      by (simp add: jumpPrev_on [OF assms] Let_def)
  next
    case (Some marker)
    then have "index E marker = ?i"
      by (rule find_index)
    then show ?thesis
      using jumpTo_currIndex [of E w marker "s\<lparr>currIndex := ?i\<rparr>"] Some
      by (auto simp: jumpPrev_on [OF assms] Let_def)
  qed
qed

lemma on_bound_line_step:
  assumes "on_bound_line E m w s"
  shows "currIndex (snd (jumpNext E w s)) = (if currIndex s = m then 0 else currIndex s + 1)"
    and "currIndex (snd (jumpPrev E w s)) = (if currIndex s = 0 then m else currIndex s - 1)"
proof -
  from assms obtain sn lnum where sn: "snippet s = Some sn" and m: "maxIndex E sn = m"
    and l: "line_dot w = Some lnum" and b: "startLnum s = Some (lnum - 1)"
    by (auto simp: on_bound_line_def split: option.splits)
  show "currIndex (snd (jumpNext E w s)) = (if currIndex s = m then 0 else currIndex s + 1)"
    using jumpNext_currIndex [OF sn l b, of E] m by simp
  show "currIndex (snd (jumpPrev E w s)) = (if currIndex s = 0 then m else currIndex s - 1)"
    using jumpPrev_currIndex [OF sn l b, of E] m by simp
qed

lemma jumpNext_run_index:
  assumes "0 \<le> m"
  shows "stays_next E m ws s \<Longrightarrow> 0 \<le> currIndex s \<Longrightarrow> currIndex s \<le> m \<Longrightarrow>
    currIndex (jumpNext_run E ws s) = (currIndex s + int (length ws)) mod (m + 1)"
proof (induction ws arbitrary: s)
  case Nil
  then show ?case by simp
next
  case (Cons w ws)
  let ?s = "snd (jumpNext E w s)"
  from Cons.prems(1) have b: "on_bound_line E m w s" and r: "stays_next E m ws ?s"
    by simp_all
  have c: "currIndex ?s = (if currIndex s = m then 0 else currIndex s + 1)"
    by (rule on_bound_line_step(1) [OF b])
  have lo: "0 \<le> currIndex ?s" and hi: "currIndex ?s \<le> m"
    using c Cons.prems(2,3) assms by (simp_all split: if_splits)
  have "currIndex (jumpNext_run E ws ?s) = (currIndex ?s + int (length ws)) mod (m + 1)"
    by (rule Cons.IH [OF r lo hi])
  also have "\<dots> = (currIndex s + int (length (w # ws))) mod (m + 1)"
  proof (cases "currIndex s = m")
    case True
    have "(m + int (length (w # ws))) mod (m + 1) = (int (length ws) + (m + 1)) mod (m + 1)"
      by (simp add: algebra_simps)
    also have "\<dots> = int (length ws) mod (m + 1)"
      by (rule mod_add_self2)
    finally show ?thesis
      using True c by simp
  next
    case False
    then show ?thesis
      using c by (simp add: algebra_simps)
  qed
  finally show ?case by simp
qed

lemma jumpPrev_run_index:
  assumes "0 \<le> m"
  shows "stays_prev E m ws s \<Longrightarrow> 0 \<le> currIndex s \<Longrightarrow> currIndex s \<le> m \<Longrightarrow>
    currIndex (jumpPrev_run E ws s) = (currIndex s - int (length ws)) mod (m + 1)"
proof (induction ws arbitrary: s)
  case Nil
  then show ?case by simp
next
  case (Cons w ws)
  let ?s = "snd (jumpPrev E w s)"
  from Cons.prems(1) have b: "on_bound_line E m w s" and r: "stays_prev E m ws ?s"
    by simp_all
  have c: "currIndex ?s = (if currIndex s = 0 then m else currIndex s - 1)"
    by (rule on_bound_line_step(2) [OF b])
  have lo: "0 \<le> currIndex ?s" and hi: "currIndex ?s \<le> m"
    using c Cons.prems(2,3) assms by (simp_all split: if_splits)
  have "currIndex (jumpPrev_run E ws ?s) = (currIndex ?s - int (length ws)) mod (m + 1)"
    by (rule Cons.IH [OF r lo hi])
  also have "\<dots> = (currIndex s - int (length (w # ws))) mod (m + 1)"
  proof (cases "currIndex s = 0")
    case True
    have "(m - int (length ws)) mod (m + 1) = ((- 1 - int (length ws)) + (m + 1)) mod (m + 1)"
      by (simp add: algebra_simps)
    also have "\<dots> = (- 1 - int (length ws)) mod (m + 1)"
      by (rule mod_add_self2)
    finally show ?thesis
      using True c by (simp add: algebra_simps)
  next
    case False
    then have "currIndex ?s - int (length ws) = currIndex s - int (length (w # ws))"
      using c by simp
    then show ?thesis
      by (rule arg_cong)
  qed
  finally show ?case by simp
qed

text \<open>
  C4. On an active session over a template with greatest index \<open>m\<close> and the cursor on
  the bound line, \<open>jumpNext\<close> sets the focused index to 0 from \<open>m\<close> and to its successor
  otherwise, and \<open>jumpPrev\<close> sets it to \<open>m\<close> from 0 and to its predecessor otherwise. Hence
  \<open>m + 1\<close> calls of \<open>jumpNext\<close> from focused index 0, on a session that stays so, bring the
  focused index back to 0, and so do \<open>m + 1\<close> calls of \<open>jumpPrev\<close>.
\<close>

theorem jump_cyclic:
  "(on_bound_line E m w s \<longrightarrow>
      currIndex (snd (jumpNext E w s)) = (if currIndex s = m then 0 else currIndex s + 1) \<and>
      currIndex (snd (jumpPrev E w s)) = (if currIndex s = 0 then m else currIndex s - 1)) \<and>
   (currIndex s = 0 \<and> int (length ws) = m + 1 \<and> stays_next E m ws s \<longrightarrow>
      currIndex (jumpNext_run E ws s) = 0) \<and>
   (currIndex s = 0 \<and> int (length ws) = m + 1 \<and> stays_prev E m ws s \<longrightarrow>
      currIndex (jumpPrev_run E ws s) = 0)"
proof (intro conjI impI)
  assume "on_bound_line E m w s"
  then show "currIndex (snd (jumpNext E w s)) = (if currIndex s = m then 0 else currIndex s + 1)"
    and "currIndex (snd (jumpPrev E w s)) = (if currIndex s = 0 then m else currIndex s - 1)"
    by (rule on_bound_line_step)+
next
  assume a: "currIndex s = 0 \<and> int (length ws) = m + 1 \<and> stays_next E m ws s"
  show "currIndex (jumpNext_run E ws s) = 0"
  proof (cases ws)
    case Nil
    with a show ?thesis by simp
  next
    case (Cons v vs)
    with a have m: "0 \<le> m" by simp
    from a have "currIndex (jumpNext_run E ws s) = (currIndex s + int (length ws)) mod (m + 1)"
      using m by (intro jumpNext_run_index) simp_all
    with a show ?thesis by simp
  qed
next
  assume a: "currIndex s = 0 \<and> int (length ws) = m + 1 \<and> stays_prev E m ws s"
  show "currIndex (jumpPrev_run E ws s) = 0"
  proof (cases ws)
    case Nil
    with a show ?thesis by simp
  next
    case (Cons v vs)
    with a have m: "0 \<le> m" by simp
    from a have "currIndex (jumpPrev_run E ws s) = (currIndex s - int (length ws)) mod (m + 1)"
      using m by (intro jumpPrev_run_index) simp_all
    moreover have "currIndex s - int (length ws) = - (m + 1)"
      using a by linarith
    moreover have "(- (m + 1)) mod (m + 1) = 0"
    proof -
      have "(- (m + 1)) mod (m + 1) = (- (m + 1) + (m + 1)) mod (m + 1)"
        by (rule mod_add_self2 [symmetric])
      also have "\<dots> = 0 mod (m + 1)"
        by (rule arg_cong [where f = "\<lambda>x. x mod (m + 1)"]) linarith
      finally show ?thesis
        by (simp only: mod_0)
    qed
    ultimately show ?thesis
      by (simp only:)
  qed
qed

text \<open>
  The scenario's session (greatest index 2) with the focus on the final placeholder,
  the document in step with the model and the cursor on the bound line: three calls of
  \<open>jumpNext\<close> select \<open>bar\<close>, \<open>baz\<close> and the final position; three calls of \<open>jumpPrev\<close> select
  \<open>baz\<close>, \<open>bar\<close> and the final position.
\<close>

lemma example_jumpNext:
  assumes "i = 0 \<or> i = 1 \<or> i = 2"
  shows "jumpNext example_env (example_world (example_doc ''foo(bar, baz)'' 8))
     (example_active\<lparr>currIndex := i, trace := tr\<rparr>) =
   (Inr (), example_active\<lparr>
      currIndex := (if i = 2 then 0 else i + 1),
      trace := tr @ [if i = 0 then Call_range_select (Some 4) 5 3
                     else if i = 1 then Call_range_select (Some 4) 10 3
                     else Call_range_select (Some 4) 14 0]\<rparr>)"
  using assms by (elim disjE) (simp_all add: example_defs method_defs Let_def)

lemma example_jumpPrev:
  assumes "i = 0 \<or> i = 1 \<or> i = 2"
  shows "jumpPrev example_env (example_world (example_doc ''foo(bar, baz)'' 8))
     (example_active\<lparr>currIndex := i, trace := tr\<rparr>) =
   (Inr (), example_active\<lparr>
      currIndex := (if i = 0 then 2 else i - 1),
      trace := tr @ [if i = 2 then Call_range_select (Some 4) 5 3
                     else if i = 0 then Call_range_select (Some 4) 10 3
                     else Call_range_select (Some 4) 14 0]\<rparr>)"
  using assms by (elim disjE) (simp_all add: example_defs method_defs Let_def)

lemma example_on_bound_line:
  "on_bound_line example_env 2 (example_world (example_doc ''foo(bar, baz)'' 8))
     (example_active\<lparr>currIndex := i, trace := tr\<rparr>)"
  by (simp add: on_bound_line_def example_defs)

theorem jump_cyclic_witness:
  "on_bound_line example_env 2 (example_world (example_doc ''foo(bar, baz)'' 8))
     (example_active\<lparr>currIndex := 0, trace := []\<rparr>) \<and>
   stays_next example_env 2 (replicate 3 (example_world (example_doc ''foo(bar, baz)'' 8)))
     (example_active\<lparr>currIndex := 0, trace := []\<rparr>) \<and>
   stays_prev example_env 2 (replicate 3 (example_world (example_doc ''foo(bar, baz)'' 8)))
     (example_active\<lparr>currIndex := 0, trace := []\<rparr>) \<and>
   currIndex (snd (jumpNext example_env (example_world (example_doc ''foo(bar, baz)'' 8))
     (example_active\<lparr>currIndex := 0, trace := []\<rparr>))) = 1 \<and>
   currIndex (snd (jumpPrev example_env (example_world (example_doc ''foo(bar, baz)'' 8))
     (example_active\<lparr>currIndex := 0, trace := []\<rparr>))) = 2 \<and>
   currIndex (jumpNext_run example_env
     (replicate 3 (example_world (example_doc ''foo(bar, baz)'' 8)))
     (example_active\<lparr>currIndex := 0, trace := []\<rparr>)) = 0 \<and>
   currIndex (jumpPrev_run example_env
     (replicate 3 (example_world (example_doc ''foo(bar, baz)'' 8)))
     (example_active\<lparr>currIndex := 0, trace := []\<rparr>)) = 0 \<and>
   trace (jumpNext_run example_env
     (replicate 3 (example_world (example_doc ''foo(bar, baz)'' 8)))
     (example_active\<lparr>currIndex := 0, trace := []\<rparr>)) =
     [Call_range_select (Some 4) 5 3, Call_range_select (Some 4) 10 3, Call_range_select (Some 4) 14 0]"
proof -
  let ?v = "example_world (example_doc ''foo(bar, baz)'' 8)"
  let ?s = "example_active\<lparr>currIndex := 0, trace := []\<rparr>"
  have r: "replicate 3 ?v = [?v, ?v, ?v]"
    by (simp add: numeral_3_eq_3)
  have b: "on_bound_line example_env 2 ?v ?s"
    by (rule example_on_bound_line)
  have n: "stays_next example_env 2 (replicate 3 ?v) ?s"
    unfolding r by (simp add: example_jumpNext example_on_bound_line)
  have p: "stays_prev example_env 2 (replicate 3 ?v) ?s"
    unfolding r by (simp add: example_jumpPrev example_on_bound_line)
  have c: "currIndex ?s = 0" "int (length (replicate 3 ?v)) = 2 + 1"
    by simp_all
  have t: "trace (jumpNext_run example_env (replicate 3 ?v) ?s) =
      [Call_range_select (Some 4) 5 3, Call_range_select (Some 4) 10 3, Call_range_select (Some 4) 14 0]"
    unfolding r by (simp add: example_jumpNext)
  note x = jump_cyclic [where E = example_env and m = 2 and w = ?v and s = ?s
      and ws = "replicate 3 ?v"]
  show ?thesis
    using b n p t
      x [THEN conjunct1, rule_format, OF b]
      x [THEN conjunct2, THEN conjunct1, rule_format, OF conjI [OF c(1) conjI [OF c(2) n]]]
      x [THEN conjunct2, THEN conjunct2, rule_format, OF conjI [OF c(1) conjI [OF c(2) p]]]
    by simp
qed

end
